theory Spec2Isabelle
  imports Main
begin

section \<open>Strings of the source\<close>

text \<open>
  A Python \<open>str\<close> is modelled as a \<open>string\<close> (a list of characters); \<open>len\<close> is
  \<open>length\<close>, a slice \<open>s[:n]\<close> is \<open>take n s\<close>, and \<open>+\<close> on strings is \<open>@\<close>.
\<close>

definition NL :: char where
  "NL = CHR 0x0A"

text \<open>The separator \<open>'\n\n'\<close> of \<open>chunk_text\<close> and \<open>extract_raw_text\<close>.\<close>

definition para_sep :: string where
  "para_sep = [NL, NL]"

text \<open>
  \<open>text.split('\n\n')\<close>: the text is cut at every occurrence of the separator, scanning from
  the left, occurrences not overlapping. The result always has at least one piece.
\<close>

fun split_paras :: "string \<Rightarrow> string list" where
  "split_paras [] = [[]]"
| "split_paras [c] = [[c]]"
| "split_paras (c # d # cs) =
     (if c = NL \<and> d = NL then [] # split_paras cs
      else (case split_paras (d # cs) of
              [] \<Rightarrow> [[c]]
            | p # ps \<Rightarrow> (c # p) # ps))"

text \<open>\<open>'\n\n'.join(pieces)\<close>.\<close>

fun join_paras :: "string list \<Rightarrow> string" where
  "join_paras [] = []"
| "join_paras [p] = p"
| "join_paras (p # q # ps) = p @ para_sep @ join_paras (q # ps)"

section \<open>utils.py\<close>

subsection \<open>chunk_text\<close>

text \<open>
  \<open>count_tokens\<close> calls the tokenizer library and falls back to \<open>len(text) // 4\<close>; it never
  raises. The tokenizer is outside the repository, so the token counter is a parameter
  \<open>ct\<close> of the model, and the results hold for every counter.

  The loop of \<open>chunk_text\<close> over the paragraphs carries \<open>chunks\<close>, \<open>current_chunk\<close> and
  \<open>current_tokens\<close>.
\<close>

fun chunk_loop ::
  "(string \<Rightarrow> int) \<Rightarrow> int \<Rightarrow> string list \<Rightarrow> string list \<Rightarrow> string list \<Rightarrow> int
     \<Rightarrow> string list \<times> string list \<times> int" where
  "chunk_loop ct max_tokens [] chunks current_chunk current_tokens =
     (chunks, current_chunk, current_tokens)"
| "chunk_loop ct max_tokens (para # paragraphs) chunks current_chunk current_tokens =
     (let para_tokens = ct para in
      if current_tokens + para_tokens > max_tokens \<and> current_chunk \<noteq> []
      then chunk_loop ct max_tokens paragraphs
             (chunks @ [join_paras current_chunk]) [para] para_tokens
      else chunk_loop ct max_tokens paragraphs
             chunks (current_chunk @ [para]) (current_tokens + para_tokens))"

definition chunk_text :: "(string \<Rightarrow> int) \<Rightarrow> string \<Rightarrow> int \<Rightarrow> string list" where
  "chunk_text ct text max_tokens =
     (case chunk_loop ct max_tokens (split_paras text) [] [] 0 of
        (chunks, current_chunk, current_tokens) \<Rightarrow>
          if current_chunk \<noteq> [] then chunks @ [join_paras current_chunk] else chunks)"

subsection \<open>sanitize_filename\<close>

text \<open>The character class \<open>[<>:"/\\|?*]\<close> of the regular expression.\<close>

definition invalid_chars :: "char set" where
  "invalid_chars =
     {CHR 0x3C, CHR 0x3E, CHR 0x3A, CHR 0x22, CHR 0x2F, CHR 0x5C, CHR 0x7C, CHR 0x3F, CHR 0x2A}"

definition re_sub_invalid :: "string \<Rightarrow> string" where
  "re_sub_invalid s = map (\<lambda>c. if c \<in> invalid_chars then CHR ''_'' else c) s"

text \<open>
  \<open>s.rsplit(sep, 1)\<close> for a one-character separator: \<open>None\<close> when the separator does not
  occur, otherwise the text before and after its last occurrence.
\<close>

fun rsplit1 :: "char \<Rightarrow> string \<Rightarrow> (string \<times> string) option" where
  "rsplit1 sep [] = None"
| "rsplit1 sep (x # xs) =
     (case rsplit1 sep xs of
        Some (name, ext) \<Rightarrow> Some (x # name, ext)
      | None \<Rightarrow> if x = sep then Some ([], xs) else None)"

definition sanitize_filename :: "string \<Rightarrow> string" where
  "sanitize_filename filename0 =
     (let filename = re_sub_invalid filename0 in
      if length filename > 200
      then (case (if CHR ''.'' \<in> set filename then the (rsplit1 (CHR ''.'') filename)
                  else (filename, [])) of
              (name, ext) \<Rightarrow>
                take 195 name @ ''...'' @ (if ext \<noteq> [] then ''.'' @ ext else []))
      else filename)"

section \<open>Exceptions, files and paths\<close>

text \<open>
  Exceptions are values. \<open>OSError\<close> is an error of the operating system other than the two
  named before it, with its message. \<open>RetryError\<close> is what the retry decorator raises when
  it gives up; it carries the exception of the last attempt. \<open>OtherError\<close> stands for an
  exception of a collaborator (PDF library, LLM client) with its message.
\<close>

datatype exn =
    FileNotFoundError
  | PermissionError
  | OSError string
  | PaperSearchError string
  | TextExtractionError string
  | DraftGenerationError string
  | OtherError string
  | RetryError exn

text \<open>
  Paths are strings with \<open>/\<close> between components. \<open>path_name\<close> is \<open>Path.name\<close>, the last
  component; \<open>path_suffix\<close> is \<open>Path.suffix\<close>: the part of the name from its last dot, when
  that dot is neither the first nor the last character of the name; \<open>path_join\<close> is the
  operator \<open>/\<close>; \<open>lower\<close> is \<open>str.lower\<close> on ASCII letters.
\<close>

definition path_name :: "string \<Rightarrow> string" where
  "path_name p = (case rsplit1 (CHR ''/'') p of None \<Rightarrow> p | Some (d, n) \<Rightarrow> n)"

definition path_suffix :: "string \<Rightarrow> string" where
  "path_suffix p =
     (case rsplit1 (CHR ''.'') (path_name p) of
        None \<Rightarrow> []
      | Some (stem, ext) \<Rightarrow> if stem \<noteq> [] \<and> ext \<noteq> [] then CHR ''.'' # ext else [])"

definition path_join :: "string \<Rightarrow> string \<Rightarrow> string" where
  "path_join d n = d @ ''/'' @ n"

definition lower_char :: "char \<Rightarrow> char" where
  "lower_char c =
     (let n = (of_char c :: nat) in if 65 \<le> n \<and> n \<le> 90 then char_of (n + 32) else c)"

definition lower :: "string \<Rightarrow> string" where
  "lower s = map lower_char s"

text \<open>
  A byte string is a list of 8-bit characters. The file system maps a path to what is
  there: a regular file, with its bytes and whether the process may open it for reading,
  or an entry that the process is denied to look at (it lies in a directory without
  search permission), on which every system call fails with \<open>PermissionError\<close>.
\<close>

type_synonym bytes = string

record stored_file =
  content :: bytes
  readable :: bool

datatype fs_entry =
    Regular stored_file
  | Denied

type_synonym filesystem = "string \<rightharpoonup> fs_entry"

text \<open>The longest file name that the file system takes, in bytes.\<close>

definition NAME_MAX :: nat where
  "NAME_MAX = 255"

text \<open>
  \<open>os.stat\<close> on a path: it fails with \<open>OSError\<close> (name too long) on a last component longer
  than \<open>NAME_MAX\<close>, with \<open>FileNotFoundError\<close> where there is nothing, and with
  \<open>PermissionError\<close> on a denied entry.
\<close>

definition os_stat :: "filesystem \<Rightarrow> string \<Rightarrow> exn + stored_file" where
  "os_stat fs p =
     (if length (path_name p) > NAME_MAX then Inl (OSError ''File name too long'')
      else (case fs p of
              None \<Rightarrow> Inl FileNotFoundError
            | Some Denied \<Rightarrow> Inl PermissionError
            | Some (Regular f) \<Rightarrow> Inr f))"

text \<open>
  \<open>Path.exists()\<close> as pathlib has it up to Python 3.12: it calls \<open>stat\<close>, answers \<open>False\<close>
  when the error says that there is no such file, and lets every other \<open>OSError\<close> pass.
\<close>

definition path_exists :: "filesystem \<Rightarrow> string \<Rightarrow> exn + bool" where
  "path_exists fs p =
     (case os_stat fs p of
        Inr f \<Rightarrow> Inr True
      | Inl FileNotFoundError \<Rightarrow> Inr False
      | Inl e \<Rightarrow> Inl e)"

text \<open>\<open>file_path.stat().st_size\<close>.\<close>

definition stat_st_size :: "filesystem \<Rightarrow> string \<Rightarrow> exn + nat" where
  "stat_st_size fs p =
     (case os_stat fs p of Inl e \<Rightarrow> Inl e | Inr f \<Rightarrow> Inr (length (content f)))"

text \<open>\<open>open(file_path, 'rb')\<close> followed by \<open>f.read(n)\<close>.\<close>

definition open_read :: "filesystem \<Rightarrow> string \<Rightarrow> nat \<Rightarrow> exn + bytes" where
  "open_read fs p n =
     (case os_stat fs p of
        Inl e \<Rightarrow> Inl e
      | Inr f \<Rightarrow> if readable f then Inr (take n (content f)) else Inl PermissionError)"

text \<open>\<open>pdf_path.unlink()\<close>, called in the source only on a path just seen to exist.\<close>

definition unlink :: "filesystem \<Rightarrow> string \<Rightarrow> filesystem" where
  "unlink fs p = fs(p := None)"

text \<open>
  Writing \<open>data\<close> to a file opened with mode \<open>'wb'\<close>, under the file size limit of the
  process (\<open>None\<close> when there is none): the file is created or emptied, the bytes are
  written, and at the limit the write fails with \<open>OSError\<close> (file too large), leaving what
  fitted.
\<close>

definition write_file ::
  "nat option \<Rightarrow> filesystem \<Rightarrow> string \<Rightarrow> bytes \<Rightarrow> exn option \<times> filesystem" where
  "write_file limit fs p data =
     (case limit of
        None \<Rightarrow> (None, fs(p \<mapsto> Regular \<lparr>content = data, readable = True\<rparr>))
      | Some n \<Rightarrow>
          if length data > n
          then (Some (OSError ''File too large''),
                fs(p \<mapsto> Regular \<lparr>content = take n data, readable = True\<rparr>))
          else (None, fs(p \<mapsto> Regular \<lparr>content = data, readable = True\<rparr>)))"

section \<open>papersearch.py\<close>

subsection \<open>validate_pdf\<close>

text \<open>
  \<open>PaperSearcher.validate_pdf\<close>; \<open>TextExtractor.validate_pdf\<close> in text_extraction.py has the
  same body. The calls of \<open>exists\<close> and of \<open>stat\<close> are outside the \<open>try\<close>, so their
  exceptions propagate; the exception of opening or reading the file is caught and gives
  \<open>False\<close>.
\<close>

definition validate_pdf :: "filesystem \<Rightarrow> string \<Rightarrow> exn + bool" where
  "validate_pdf fs file_path =
     (case path_exists fs file_path of
        Inl e \<Rightarrow> Inl e
      | Inr ex \<Rightarrow>
          if \<not> ex then Inr False
          else if lower (path_suffix file_path) \<noteq> ''.pdf'' then Inr False
          else (case stat_st_size fs file_path of
                  Inl e \<Rightarrow> Inl e
                | Inr st_size \<Rightarrow>
                    if st_size = 0 then Inr False
                    else (case open_read fs file_path 4 of
                            Inl e \<Rightarrow> Inr False
                          | Inr header \<Rightarrow> Inr (header = ''%PDF''))))"

subsection \<open>The retry decorator\<close>

text \<open>
  The decorator \<open>@retry(stop=stop_after_attempt(n), wait=wait_exponential(...))\<close> of the
  tenacity library: the body is called; a returned value is returned at once; when the
  body raises and the attempt number has reached \<open>n\<close>, \<open>RetryError\<close> is raised; otherwise
  the decorator sleeps for \<open>wait attempt_number\<close> and calls the body again. The body acts
  on a state \<open>'w\<close>. The result comes with the number of attempts made and the delays slept.
  The first argument of \<open>retrying\<close> is the number of attempts left after the current one.
\<close>

definition wait_exponential :: "int \<Rightarrow> int \<Rightarrow> int \<Rightarrow> nat \<Rightarrow> int" where
  "wait_exponential multiplier mn mx attempt_number =
     max (max 0 mn) (min (multiplier * 2 ^ (attempt_number - 1)) mx)"

fun retrying ::
  "nat \<Rightarrow> nat \<Rightarrow> (nat \<Rightarrow> int) \<Rightarrow> ('w \<Rightarrow> (exn + 'a) \<times> 'w) \<Rightarrow> 'w
     \<Rightarrow> ((exn + 'a) \<times> 'w) \<times> nat \<times> int list" where
  "retrying 0 attempt_number wait body w =
     (case body w of
        (Inr v, w') \<Rightarrow> ((Inr v, w'), attempt_number, [])
      | (Inl e, w') \<Rightarrow> ((Inl (RetryError e), w'), attempt_number, []))"
| "retrying (Suc left) attempt_number wait body w =
     (case body w of
        (Inr v, w') \<Rightarrow> ((Inr v, w'), attempt_number, [])
      | (Inl e, w') \<Rightarrow>
          (case retrying left (Suc attempt_number) wait body w' of
             (r, attempts, delays) \<Rightarrow> (r, attempts, wait attempt_number # delays)))"

definition retry ::
  "nat \<Rightarrow> (nat \<Rightarrow> int) \<Rightarrow> ('w \<Rightarrow> (exn + 'a) \<times> 'w) \<Rightarrow> 'w
     \<Rightarrow> ((exn + 'a) \<times> 'w) \<times> nat \<times> int list" where
  "retry stop_after_attempt wait body w = retrying (stop_after_attempt - 1) 1 wait body w"

subsection \<open>The network and the world\<close>

text \<open>
  The outcome of \<open>session.get(url, stream=True)\<close> and of reading the response: the request
  raises a \<open>RequestException\<close>; or there is a response with a status (\<open>raise_for_status\<close>
  raises a \<open>RequestException\<close> on a bad one), a content type, the chunks that
  \<open>iter_content\<close> yields, and whether the stream ends normally or raises a
  \<open>RequestException\<close> after these chunks. The network answers the k-th request of a run.
  The world is the file system, the number of requests made so far, and the file size
  limit of the process, if it has one.
\<close>

datatype http_result =
    RequestFailed string
  | Response bool string "bytes list" bool

type_synonym network = "nat \<Rightarrow> string \<Rightarrow> http_result"

record world =
  files :: filesystem
  requests :: nat
  max_file_size :: "nat option"

record paper =
  title :: string
  pdf_url :: string

subsection \<open>search_papers\<close>

text \<open>
  The answer of the search service: the request fails (any \<open>RequestException\<close>, with its
  message), or it gives the list under \<open>data\<close>; of each entry the model keeps the title
  and the URL under \<open>openAccessPdf\<close>, the other fields being copied unchanged.
\<close>

record api_paper =
  ap_title :: "string option"
  ap_pdf_url :: "string option"

datatype search_result =
    SearchFailed string
  | SearchData "api_paper list"

type_synonym search_service = "nat \<Rightarrow> string \<Rightarrow> int \<Rightarrow> search_result"

fun collect_papers :: "int \<Rightarrow> api_paper list \<Rightarrow> paper list \<Rightarrow> paper list" where
  "collect_papers limit [] papers = papers"
| "collect_papers limit (p # data) papers =
     (case ap_pdf_url p of
        None \<Rightarrow> collect_papers limit data papers
      | Some u \<Rightarrow>
          if u = [] then collect_papers limit data papers
          else (let papers' = papers @
                      [\<lparr>title = (case ap_title p of None \<Rightarrow> ''Untitled'' | Some t \<Rightarrow> t),
                        pdf_url = u\<rparr>]
                in if int (length papers') \<ge> limit then papers'
                   else collect_papers limit data papers'))"

definition search_papers_body ::
  "search_service \<Rightarrow> string \<Rightarrow> int \<Rightarrow> world \<Rightarrow> (exn + paper list) \<times> world" where
  "search_papers_body svc topic limit w =
     (let w1 = w\<lparr>requests := Suc (requests w)\<rparr> in
      case svc (requests w) topic (limit * 2) of
        SearchFailed msg \<Rightarrow> (Inl (PaperSearchError (''Failed to search papers: '' @ msg)), w1)
      | SearchData data \<Rightarrow> (Inr (collect_papers limit data []), w1))"

definition search_papers ::
  "search_service \<Rightarrow> string \<Rightarrow> int \<Rightarrow> world
     \<Rightarrow> ((exn + paper list) \<times> world) \<times> nat \<times> int list" where
  "search_papers svc topic limit w =
     retry 3 (wait_exponential 1 2 10) (search_papers_body svc topic limit) w"

subsection \<open>download_pdf\<close>

definition pdf_path_of :: "paper \<Rightarrow> string \<Rightarrow> string" where
  "pdf_path_of p save_dir = path_join save_dir (sanitize_filename (title p) @ ''.pdf'')"

text \<open>
  The handler of \<open>RequestException\<close>: remove the partial download if it exists. The call of
  \<open>exists\<close> in the handler may raise as any other.
\<close>

definition cleanup_partial :: "filesystem \<Rightarrow> string \<Rightarrow> exn + filesystem" where
  "cleanup_partial fs pdf_path =
     (case path_exists fs pdf_path of
        Inl e \<Rightarrow> Inl e
      | Inr ex \<Rightarrow> Inr (if ex then unlink fs pdf_path else fs))"

definition give_up :: "world \<Rightarrow> filesystem \<Rightarrow> string \<Rightarrow> (exn + string option) \<times> world" where
  "give_up w fs pdf_path =
     (case cleanup_partial fs pdf_path of
        Inl e \<Rightarrow> (Inl e, w\<lparr>files := fs\<rparr>)
      | Inr fs' \<Rightarrow> (Inr None, w\<lparr>files := fs'\<rparr>))"

text \<open>
  The \<open>try\<close> block: the request, the status check, writing the non-empty chunks to the
  file opened with mode \<open>'wb'\<close>, and the validation of what has been written. Only a
  \<open>RequestException\<close> reaches the handler; an \<open>OSError\<close> of the write leaves the function
  with the file as it is.
\<close>

definition fetch_and_store ::
  "network \<Rightarrow> paper \<Rightarrow> string \<Rightarrow> world \<Rightarrow> (exn + string option) \<times> world" where
  "fetch_and_store net p pdf_path w =
     (let w1 = w\<lparr>requests := Suc (requests w)\<rparr> in
      case net (requests w) (pdf_url p) of
        RequestFailed msg \<Rightarrow> give_up w1 (files w1) pdf_path
      | Response ok content_type chunks stream_ok \<Rightarrow>
          if \<not> ok then give_up w1 (files w1) pdf_path
          else
            (case write_file (max_file_size w1) (files w1) pdf_path
                    (concat (filter (\<lambda>chunk. chunk \<noteq> []) chunks)) of
               (Some e, written) \<Rightarrow> (Inl e, w1\<lparr>files := written\<rparr>)
             | (None, written) \<Rightarrow>
                 if \<not> stream_ok then give_up w1 written pdf_path
                 else (case validate_pdf written pdf_path of
                         Inl e \<Rightarrow> (Inl e, w1\<lparr>files := written\<rparr>)
                       | Inr valid \<Rightarrow>
                           if valid then (Inr (Some pdf_path), w1\<lparr>files := written\<rparr>)
                           else (Inr None, w1\<lparr>files := unlink written pdf_path\<rparr>))))"

definition download_pdf_body ::
  "network \<Rightarrow> paper \<Rightarrow> string \<Rightarrow> world \<Rightarrow> (exn + string option) \<times> world" where
  "download_pdf_body net p save_dir w =
     (let pdf_path = pdf_path_of p save_dir in
      case path_exists (files w) pdf_path of
        Inl e \<Rightarrow> (Inl e, w)
      | Inr ex \<Rightarrow>
          if ex
          then (case validate_pdf (files w) pdf_path of
                  Inl e \<Rightarrow> (Inl e, w)
                | Inr valid \<Rightarrow>
                    if valid then (Inr (Some pdf_path), w)
                    else fetch_and_store net p pdf_path
                           (w\<lparr>files := unlink (files w) pdf_path\<rparr>))
          else fetch_and_store net p pdf_path w)"

definition download_pdf ::
  "network \<Rightarrow> paper \<Rightarrow> string \<Rightarrow> world
     \<Rightarrow> ((exn + string option) \<times> world) \<times> nat \<times> int list" where
  "download_pdf net p save_dir w =
     retry 3 (wait_exponential 1 2 10) (download_pdf_body net p save_dir) w"

subsection \<open>Example inputs\<close>

text \<open>
  A paper titled \<open>T\<close>, to be stored as \<open>d/T.pdf\<close>; a world in which that path holds a
  file that is not a PDF; a network that answers every request with a small PDF; an empty
  world; an empty world whose process may write files of two bytes at most; and a file
  system in which \<open>d/T.pdf\<close> is a denied entry.
\<close>

definition ex_paper :: paper where
  "ex_paper = \<lparr>title = ''T'', pdf_url = ''http://x/t.pdf''\<rparr>"

definition ex_world :: world where
  "ex_world = \<lparr>files = [''d/T.pdf'' \<mapsto> Regular \<lparr>content = ''<html>'', readable = True\<rparr>],
               requests = 0, max_file_size = None\<rparr>"

definition ex_net :: network where
  "ex_net = (\<lambda>k url. Response True ''application/pdf'' [''%PDF-1.4'', '' body''] True)"

definition ex_empty_world :: world where
  "ex_empty_world = \<lparr>files = Map.empty, requests = 0, max_file_size = None\<rparr>"

definition ex_limited_world :: world where
  "ex_limited_world = \<lparr>files = Map.empty, requests = 0, max_file_size = Some 2\<rparr>"

definition ex_denied_fs :: filesystem where
  "ex_denied_fs = [''d/T.pdf'' \<mapsto> Denied]"

text \<open>What the download leaves under the file size limit of two bytes.\<close>

definition ex_partial_fs :: filesystem where
  "ex_partial_fs = [''d/T.pdf'' \<mapsto> Regular \<lparr>content = ''%P'', readable = True\<rparr>]"

section \<open>text_extraction.py\<close>

text \<open>
  \<open>str.strip()\<close> removes the white space at both ends; the white-space characters below
  code point 256 are those of \<open>str.isspace\<close>.
\<close>

definition is_space :: "char \<Rightarrow> bool" where
  "is_space c = ((of_char c :: nat) \<in> {9, 10, 11, 12, 13, 28, 29, 30, 31, 32, 133, 160})"

definition strip :: "string \<Rightarrow> string" where
  "strip s = rev (dropWhile is_space (rev (dropWhile is_space s)))"

text \<open>
  \<open>str(e)\<close>, the message of an exception. That of \<open>RetryError\<close> names the class and
  shows the last attempt, a future whose printed address changes from run to run and is
  \<open>0x0\<close> here.
\<close>

fun exn_class :: "exn \<Rightarrow> string" where
  "exn_class FileNotFoundError = ''FileNotFoundError''"
| "exn_class PermissionError = ''PermissionError''"
| "exn_class (OSError msg) = ''OSError''"
| "exn_class (PaperSearchError msg) = ''PaperSearchError''"
| "exn_class (TextExtractionError msg) = ''TextExtractionError''"
| "exn_class (DraftGenerationError msg) = ''DraftGenerationError''"
| "exn_class (OtherError msg) = ''Exception''"
| "exn_class (RetryError e) = ''RetryError''"

fun str_exn :: "exn \<Rightarrow> string" where
  "str_exn FileNotFoundError = ''No such file or directory''"
| "str_exn PermissionError = ''Permission denied''"
| "str_exn (OSError msg) = msg"
| "str_exn (PaperSearchError msg) = msg"
| "str_exn (TextExtractionError msg) = msg"
| "str_exn (DraftGenerationError msg) = msg"
| "str_exn (OtherError msg) = msg"
| "str_exn (RetryError e) =
     ''RetryError[<Future at 0x0 state=finished raised '' @ exn_class e @ ''>]''"

text \<open>
  The PDF library is a parameter: from the bytes of a file it gives the texts of the
  pages, in page order, or the exception that \<open>fitz.open\<close> or \<open>page.get_text\<close> raises.
  Whichever call raises, the handler of \<open>extract_raw_text\<close> does the same.
\<close>

type_synonym pdf_library = "bytes \<Rightarrow> exn + string list"

definition file_bytes :: "filesystem \<Rightarrow> string \<Rightarrow> bytes" where
  "file_bytes fs p = (case fs p of Some (Regular f) \<Rightarrow> content f | _ \<Rightarrow> [])"

text \<open>The loop over the pages: a page is kept when its text is not only white space.\<close>

fun collect_pages :: "string list \<Rightarrow> string list \<Rightarrow> string list" where
  "collect_pages [] pages = pages"
| "collect_pages (text # rest) pages =
     (if strip text \<noteq> [] then collect_pages rest (pages @ [text])
      else collect_pages rest pages)"

text \<open>
  The \<open>try\<close> block of \<open>extract_raw_text\<close>; its own \<open>TextExtractionError\<close> for a document
  without text is raised inside the block and so passes through the handler as well.
\<close>

definition extract_pages :: "pdf_library \<Rightarrow> bytes \<Rightarrow> exn + string" where
  "extract_pages fitz data =
     (case fitz data of
        Inl e \<Rightarrow> Inl e
      | Inr texts \<Rightarrow>
          (let pages = collect_pages texts [] in
           if pages = [] then Inl (TextExtractionError ''No text extracted from PDF'')
           else Inr (join_paras pages)))"

definition extract_raw_text :: "pdf_library \<Rightarrow> filesystem \<Rightarrow> string \<Rightarrow> exn + string" where
  "extract_raw_text fitz fs pdf_path =
     (case validate_pdf fs pdf_path of
        Inl e \<Rightarrow> Inl e
      | Inr valid \<Rightarrow>
          if \<not> valid then Inl (TextExtractionError (''File is not a valid PDF: '' @ pdf_path))
          else (case extract_pages fitz (file_bytes fs pdf_path) of
                  Inl e \<Rightarrow> Inl (TextExtractionError (''Text extraction failed: '' @ str_exn e))
                | Inr full_text \<Rightarrow> Inr full_text))"

text \<open>A file system with one valid PDF, for the examples.\<close>

definition ex_pdf_fs :: filesystem where
  "ex_pdf_fs = [''d/T.pdf'' \<mapsto> Regular \<lparr>content = ''%PDF-1.4 body'', readable = True\<rparr>]"

section \<open>The LLM client and its fallback chain\<close>

text \<open>
  A call of \<open>client.models.generate_content\<close> raises or gives a response with a text (the
  empty text standing also for a response without text). The client answers the k-th call
  of a run, for a model name and a prompt; the state of the bodies below is the number of
  calls made so far.
\<close>

datatype llm_reply =
    LlmRaises string
  | LlmText string

type_synonym llm_client = "nat \<Rightarrow> string \<Rightarrow> string \<Rightarrow> llm_reply"



text \<open>Parsed JSON, with dictionaries as association lists in insertion order.\<close>

datatype json =
    JNull
  | JBool bool
  | JNumber int
  | JString string
  | JArray "json list"
  | JObject "(string \<times> json) list"

text \<open>Truth value of a parsed JSON value, as \<open>not insights[field]\<close> tests it.\<close>

fun truthy :: "json \<Rightarrow> bool" where
  "truthy JNull = False"
| "truthy (JBool b) = b"
| "truthy (JNumber n) = (n \<noteq> 0)"
| "truthy (JString s) = (s \<noteq> [])"
| "truthy (JArray xs) = (xs \<noteq> [])"
| "truthy (JObject kvs) = (kvs \<noteq> [])"

fun dict_set :: "string \<Rightarrow> json \<Rightarrow> (string \<times> json) list \<Rightarrow> (string \<times> json) list" where
  "dict_set k v [] = [(k, v)]"
| "dict_set k v ((k', v') # kvs) =
     (if k = k' then (k, v) # kvs else (k', v') # dict_set k v kvs)"

section \<open>paper_analyzer.py\<close>

definition default_insights :: json where
  "default_insights =
     JObject [(''key_findings'', JArray [JString ''Analysis temporarily unavailable - API issue'']),
              (''contributions'', JArray []),
              (''limitations'', JArray []),
              (''future_work'', JArray [])]"

definition required_fields :: "string list" where
  "required_fields = [''key_findings'', ''contributions'', ''limitations'', ''future_work'']"

text \<open>
  The loop that ensures the required fields. On a value that is not a dictionary the
  membership test or the item assignment raises, which the enclosing handler catches.
\<close>

fun ensure_fields :: "string list \<Rightarrow> (string \<times> json) list \<Rightarrow> (string \<times> json) list" where
  "ensure_fields [] insights = insights"
| "ensure_fields (field # rest) insights =
     ensure_fields rest
       (case map_of insights field of
          None \<Rightarrow> dict_set field (JArray []) insights
        | Some v \<Rightarrow> if \<not> truthy v then dict_set field (JArray []) insights else insights)"

text \<open>
  Whether \<open>len\<close> applies to a parsed value: the log line inside the \<open>try\<close> takes the length
  of what is under \<open>key_findings\<close> and raises on a number or a boolean.
\<close>

fun has_len :: "json \<Rightarrow> bool" where
  "has_len (JString s) = True"
| "has_len (JArray xs) = True"
| "has_len (JObject kvs) = True"
| "has_len v = False"

text \<open>
  The loop of \<open>extract_insights\<close> over the models. \<open>safe_json_loads\<close> of utils.py is the
  parameter \<open>parse\<close>: it rests on the JSON library, never raises, and gives the empty
  dictionary for a text that it cannot parse. Every exception inside the \<open>try\<close> moves on to
  the next model.
\<close>

fun try_models_insights ::
  "llm_client \<Rightarrow> (string \<Rightarrow> json) \<Rightarrow> string \<Rightarrow> string list \<Rightarrow> nat \<Rightarrow> json option \<times> nat" where
  "try_models_insights llm parse prompt [] calls = (None, calls)"
| "try_models_insights llm parse prompt (model_name # rest) calls =
     (case llm calls model_name prompt of
        LlmRaises msg \<Rightarrow> try_models_insights llm parse prompt rest (Suc calls)
      | LlmText text \<Rightarrow>
          if text = [] then try_models_insights llm parse prompt rest (Suc calls)
          else (case parse text of
                  JObject parsed \<Rightarrow>
                    (let insights = ensure_fields required_fields parsed in
                     if (case map_of insights ''key_findings'' of
                           None \<Rightarrow> True
                         | Some v \<Rightarrow> has_len v)
                     then (Some (JObject insights), Suc calls)
                     else try_models_insights llm parse prompt rest (Suc calls))
                | _ \<Rightarrow> try_models_insights llm parse prompt rest (Suc calls)))"

text \<open>
  \<open>sections\<close> is the dictionary of section texts; \<open>render\<close> builds the prompt from the
  shortened sections (\<open>ANALYSIS_PROMPT.format\<close> over \<open>json.dumps\<close>).
\<close>

definition sections_summary :: "(string \<times> string) list \<Rightarrow> (string \<times> string) list" where
  "sections_summary sections =
     map (\<lambda>(key, v). (key, if length v > 3000 then take 3000 v @ ''...'' else v))
       (filter (\<lambda>(key, v). v \<noteq> []) sections)"

definition extract_insights_body ::
  "llm_client \<Rightarrow> (string \<Rightarrow> json) \<Rightarrow> ((string \<times> string) list \<Rightarrow> string) \<Rightarrow> string \<Rightarrow> string list
     \<Rightarrow> (string \<times> string) list \<Rightarrow> nat \<Rightarrow> (exn + json) \<times> nat" where
  "extract_insights_body llm parse render model model_fallbacks sections calls =
     (if \<not> (\<exists>v \<in> set (map snd sections). v \<noteq> []) then (Inr default_insights, calls)
      else (case try_models_insights llm parse (render (sections_summary sections))
                   (model # model_fallbacks) calls of
              (Some insights, calls') \<Rightarrow> (Inr insights, calls')
            | (None, calls') \<Rightarrow> (Inr default_insights, calls')))"


section \<open>draft_generator.py\<close>




section \<open>app.py\<close>

subsection \<open>Formatting\<close>

text \<open>\<open>str(n)\<close> for a natural number, as the f-strings print lengths and indices.\<close>

definition digit_char :: "nat \<Rightarrow> char" where
  "digit_char d = char_of (48 + d)"

function str_nat :: "nat \<Rightarrow> string" where
  "str_nat n = (if n < 10 then [digit_char n] else str_nat (n div 10) @ [digit_char (n mod 10)])"
  by pat_completeness auto
termination
  by (relation "measure (\<lambda>n. n)") auto

definition upper_char :: "char \<Rightarrow> char" where
  "upper_char c =
     (let n = (of_char c :: nat) in if 97 \<le> n \<and> n \<le> 122 then char_of (n - 32) else c)"

text \<open>\<open>str.capitalize\<close>, on ASCII letters.\<close>

definition capitalize :: "string \<Rightarrow> string" where
  "capitalize s = (case s of [] \<Rightarrow> [] | c # cs \<Rightarrow> upper_char c # lower cs)"

text \<open>
  What the nodes take from outside: the pictographs of the messages, by name (they are
  outside ASCII); the text of the wall clock when the entry number \<open>k\<close> of the progress log
  is formatted; and the rendering \<open>{x:.1f}\<close> of a duration. Clock readings and durations
  are numbers of some fixed unit.
\<close>

record env =
  glyph :: "string \<Rightarrow> string"
  stamp :: "nat \<Rightarrow> string"
  fmt_duration :: "int \<Rightarrow> string"

definition icon_keys :: "string list" where
  "icon_keys = [''start'', ''search'', ''download'', ''extract'', ''analyze'', ''draft'',
                ''complete'', ''error'', ''warning'']"

text \<open>\<open>format_progress_message\<close> of utils.py, for the entry number \<open>k\<close> of the log.\<close>

definition format_progress_message :: "env \<Rightarrow> nat \<Rightarrow> string \<Rightarrow> string \<Rightarrow> string \<Rightarrow> string" where
  "format_progress_message e k step status details =
     (let icon = (if lower step \<in> set icon_keys then glyph e (lower step) else glyph e ''bullet'');
          message = ''['' @ stamp e k @ ''] '' @ icon @ '' '' @ status
      in if details \<noteq> [] then message @ [NL] @ ''   '' @ glyph e ''pin'' @ '' '' @ details
         else message)"

subsection \<open>The state\<close>

record pipeline_state =
  topic :: string
  papers :: "paper list"
  search_success :: bool
  search_message :: string
  extracted_paths :: "string list"
  extraction_success :: bool
  extraction_message :: string
  analysis_paths :: "string list"
  analysis_success :: bool
  analysis_message :: string
  draft :: "string option"
  draft_path :: "string option"
  draft_success :: bool
  draft_message :: string
  error :: "string option"
  progress :: "string list"
  start_time :: int
  stage_times :: "(string \<times> int) list"

definition create_initial_state :: "int \<Rightarrow> string \<Rightarrow> pipeline_state" where
  "create_initial_state now t =
     \<lparr>topic = t, papers = [], search_success = False, search_message = [],
      extracted_paths = [], extraction_success = False, extraction_message = [],
      analysis_paths = [], analysis_success = False, analysis_message = [],
      draft = None, draft_path = None, draft_success = False, draft_message = [],
      error = None, progress = [], start_time = now, stage_times = []\<rparr>"

text \<open>The test \<open>if state.get("error")\<close>: the error is neither \<open>None\<close> nor the empty string.\<close>

definition has_error :: "pipeline_state \<Rightarrow> bool" where
  "has_error s = (case error s of None \<Rightarrow> False | Some msg \<Rightarrow> msg \<noteq> [])"

definition append_progress :: "string \<Rightarrow> pipeline_state \<Rightarrow> pipeline_state" where
  "append_progress line s = s\<lparr>progress := progress s @ [line]\<rparr>"

definition log_message :: "env \<Rightarrow> string \<Rightarrow> string \<Rightarrow> pipeline_state \<Rightarrow> pipeline_state" where
  "log_message e step status s =
     append_progress (format_progress_message e (length (progress s)) step status []) s"

text \<open>Assignment \<open>d[key] = value\<close> on a dictionary kept in insertion order.\<close>

fun dict_put :: "'k \<Rightarrow> 'v \<Rightarrow> ('k \<times> 'v) list \<Rightarrow> ('k \<times> 'v) list" where
  "dict_put k v [] = [(k, v)]"
| "dict_put k v ((k', v') # kvs) =
     (if k = k' then (k, v) # kvs else (k', v') # dict_put k v kvs)"

subsection \<open>The nodes\<close>

text \<open>
  Each node takes the outcome of its collaborator as an argument: the value returned, or
  the exception raised, by \<open>process_topic\<close>, \<open>process_all_pdfs\<close>, \<open>process_all_papers\<close> and
  \<open>generate_review\<close>; and the time \<open>elapsed\<close> that it stores under its name.
\<close>

record topic_result =
  success :: bool
  message :: string
  result_papers :: "paper list"

datatype review_result =
    ReviewOk string string string
  | ReviewFailed string

fun numbered_titles :: "nat \<Rightarrow> paper list \<Rightarrow> string list" where
  "numbered_titles i [] = []"
| "numbered_titles i (p # ps) =
     (''   '' @ str_nat i @ ''. '' @ take 80 (title p) @ ''...'') # numbered_titles (Suc i) ps"

definition search_node ::
  "env \<Rightarrow> exn + topic_result \<Rightarrow> int \<Rightarrow> pipeline_state \<Rightarrow> pipeline_state" where
  "search_node e outcome elapsed s =
     (let s1 = log_message e ''search''
                 (''Searching for papers on: '' @ [CHR 0x27] @ topic s @ [CHR 0x27]) s;
          s2 = (case outcome of
                  Inl exc \<Rightarrow>
                    log_message e ''error'' (''Search failed: '' @ str_exn exc)
                      (s1\<lparr>error := Some (str_exn exc)\<rparr>)
                | Inr result \<Rightarrow>
                    (let s' = s1\<lparr>papers := result_papers result,
                                  search_success := success result,
                                  search_message := message result\<rparr>
                     in if \<not> success result
                        then log_message e ''error'' (''Search failed: '' @ message result)
                               (s'\<lparr>error := Some (message result)\<rparr>)
                        else (let s'' = log_message e ''complete''
                                    (''Found '' @ str_nat (length (result_papers result))
                                       @ '' papers with PDFs'') s'
                              in s''\<lparr>progress := progress s''
                                       @ numbered_titles 1 (result_papers result)\<rparr>)))
      in s2\<lparr>stage_times := dict_put ''search'' elapsed (stage_times s2)\<rparr>)"

definition extract_node ::
  "env \<Rightarrow> exn + string list \<Rightarrow> int \<Rightarrow> pipeline_state \<Rightarrow> pipeline_state" where
  "extract_node e outcome elapsed s =
     (if has_error s then s
      else
       (let s1 = log_message e ''extract'' ''Extracting text from PDFs...'' s;
            s2 = (case outcome of
                    Inl exc \<Rightarrow>
                      log_message e ''error'' (''Extraction failed: '' @ str_exn exc)
                        (s1\<lparr>error := Some (str_exn exc)\<rparr>)
                  | Inr saved_files \<Rightarrow>
                      (let s' = s1\<lparr>extracted_paths := saved_files,
                                    extraction_success := (length saved_files > 0),
                                    extraction_message :=
                                      ''Extracted '' @ str_nat (length saved_files) @ '' papers''\<rparr>
                       in if saved_files \<noteq> []
                          then (let s'' = log_message e ''complete''
                                      (''Successfully extracted text from ''
                                         @ str_nat (length saved_files) @ '' papers'') s'
                                in s''\<lparr>progress := progress s'' @
                                         map (\<lambda>path. ''   '' @ glyph e ''page'' @ '' '' @ path_name path)
                                           (take 3 saved_files)\<rparr>)
                          else log_message e ''error'' ''Failed to extract text from any PDF''
                                 (s'\<lparr>error := Some ''No text extracted from any PDF''\<rparr>)))
        in s2\<lparr>stage_times := dict_put ''extract'' elapsed (stage_times s2)\<rparr>))"

definition analyze_node ::
  "env \<Rightarrow> exn + string list \<Rightarrow> int \<Rightarrow> pipeline_state \<Rightarrow> pipeline_state" where
  "analyze_node e outcome elapsed s =
     (if has_error s then s
      else
       (let s1 = log_message e ''analyze'' ''Analyzing papers with Gemini AI...'' s;
            s2 = (case outcome of
                    Inl exc \<Rightarrow>
                      log_message e ''error'' (''Analysis failed: '' @ str_exn exc)
                        (s1\<lparr>error := Some (str_exn exc)\<rparr>)
                  | Inr paths \<Rightarrow>
                      (let s' = s1\<lparr>analysis_paths := paths,
                                    analysis_success := (length paths > 0),
                                    analysis_message :=
                                      ''Analyzed '' @ str_nat (length paths) @ '' papers''\<rparr>
                       in if paths \<noteq> []
                          then (let s'' = log_message e ''complete''
                                      (''Successfully analyzed '' @ str_nat (length paths)
                                         @ '' papers'') s'
                                in s''\<lparr>progress := progress s'' @
                                         map (\<lambda>path. ''   '' @ glyph e ''microscope'' @ '' '' @ path_name path)
                                           (take 3 paths)\<rparr>)
                          else log_message e ''error'' ''Failed to analyze any papers''
                                 (s'\<lparr>error := Some ''No papers successfully analyzed''\<rparr>)))
        in s2\<lparr>stage_times := dict_put ''analyze'' elapsed (stage_times s2)\<rparr>))"

definition draft_node ::
  "env \<Rightarrow> exn + review_result \<Rightarrow> int \<Rightarrow> pipeline_state \<Rightarrow> pipeline_state" where
  "draft_node e outcome elapsed s =
     (if has_error s then s
      else
       (let s1 = log_message e ''draft'' ''Generating research review draft...'' s;
            s2 = (case outcome of
                    Inl exc \<Rightarrow>
                      log_message e ''error'' (''Draft generation failed: '' @ str_exn exc)
                        (s1\<lparr>error := Some (str_exn exc)\<rparr>)
                  | Inr (ReviewOk msg text path) \<Rightarrow>
                      (let s' = s1\<lparr>draft_success := True, draft_message := msg,
                                    draft := Some text, draft_path := Some path\<rparr>;
                           s'' = log_message e ''complete''
                                   (''Draft generated successfully: '' @ path) s';
                           preview = (if length text > 200 then take 200 text @ ''...'' else text)
                       in append_progress (''   '' @ glyph e ''memo'' @ '' Preview: '' @ preview) s'')
                  | Inr (ReviewFailed msg) \<Rightarrow>
                      log_message e ''error'' (''Draft generation failed: '' @ msg)
                        (s1\<lparr>draft_success := False, draft_message := msg, error := Some msg\<rparr>))
        in s2\<lparr>stage_times := dict_put ''draft'' elapsed (stage_times s2)\<rparr>))"

definition summary_rule :: string where
  "summary_rule = replicate 50 (CHR ''='')"

definition finalize_node :: "env \<Rightarrow> int \<Rightarrow> pipeline_state \<Rightarrow> pipeline_state" where
  "finalize_node e now s =
     (let total_time = now - start_time s;
          head = [[NL] @ summary_rule, glyph e ''chart'' @ '' PIPELINE SUMMARY'', summary_rule]
      in if has_error s
         then s\<lparr>progress := progress s @ head @
                  [glyph e ''cross'' @ '' Status: Failed'',
                   glyph e ''warning'' @ '' Error: '' @ (case error s of None \<Rightarrow> [] | Some msg \<Rightarrow> msg)]\<rparr>
         else s\<lparr>progress := progress s @ head @
                  [glyph e ''check'' @ '' Status: Completed Successfully'',
                   glyph e ''books'' @ '' Papers processed: '' @ str_nat (length (papers s)),
                   glyph e ''stopwatch'' @ '' Total time: '' @ fmt_duration e total_time @ '' seconds'',
                   [NL] @ glyph e ''graph'' @ '' Stage Times:''] @
                  map (\<lambda>(stage, duration).
                         ''   '' @ glyph e ''bullet'' @ '' '' @ capitalize stage @ '': ''
                           @ fmt_duration e duration @ ''s'')
                    (stage_times s)\<rparr>)"

text \<open>An example: a run in which the search has failed.\<close>

definition ex_env :: env where
  "ex_env = \<lparr>glyph = (\<lambda>name. name), stamp = (\<lambda>k. ''12:00:00''), fmt_duration = (\<lambda>d. ''0.0'')\<rparr>"

definition ex_failed_state :: pipeline_state where
  "ex_failed_state = (create_initial_state 0 ''graph neural networks'')
     \<lparr>error := Some ''No papers found with PDF links''\<rparr>"

section \<open>pipeline.py\<close>

text \<open>
  The state of the review pipeline, with the fields that the revision loop reads and
  writes. \<open>critique\<close> holds the quality signal of the last critique and its suggestions.
\<close>

record critique_result =
  inadequate :: bool
  suggestions :: "string list"

record paper_state =
  ps_topic :: string
  step_log :: "string list"
  errors :: "string list"
  revision_count :: int
  critique :: "critique_result option"
  aggregated_draft :: "string option"
  final_draft :: "string option"

datatype node = CritiquePaper | RevisePaper | FinalDraft

datatype decision = ToRevisePaper | ToFinalDraft

text \<open>
  Modelled from the spec: \<open>revise_node\<close> of draft_generator, the function on the conditional
  edge after \<open>critique_paper\<close>, which pipeline.py imports and the sources under src do not
  hold. The spec: after critique, if \<open>revision_count < cap\<close> and the critique signals
  inadequate quality, go to \<open>revise_paper\<close>; else go to \<open>final_draft\<close>.
\<close>

definition revise_node :: "int \<Rightarrow> paper_state \<Rightarrow> decision" where
  "revise_node cap s =
     (if revision_count s < cap \<and> (case critique s of None \<Rightarrow> False | Some c \<Rightarrow> inadequate c)
      then ToRevisePaper else ToFinalDraft)"

text \<open>
  Modelled from the spec: \<open>critique_paper_node\<close>, \<open>revise_paper_node\<close> and
  \<open>final_draft_node\<close> of draft_generator, absent from src as well. The critique writes
  its result; the revision increments \<open>revision_count\<close> and rewrites the aggregated draft
  using the critique; the final node always produces a text, falling back to the
  aggregated draft. The judgement of the critique and the rewriting are LLM calls, taken
  as parameters \<open>judge\<close> and \<open>rewrite\<close>.
\<close>

definition critique_paper_node :: "(paper_state \<Rightarrow> critique_result) \<Rightarrow> paper_state \<Rightarrow> paper_state" where
  "critique_paper_node judge s = s\<lparr>critique := Some (judge s)\<rparr>"

definition revise_paper_node :: "(paper_state \<Rightarrow> string) \<Rightarrow> paper_state \<Rightarrow> paper_state" where
  "revise_paper_node rewrite s =
     s\<lparr>revision_count := revision_count s + 1, aggregated_draft := Some (rewrite s)\<rparr>"

definition final_draft_node :: "paper_state \<Rightarrow> paper_state" where
  "final_draft_node s =
     s\<lparr>final_draft := Some (case aggregated_draft s of None \<Rightarrow> ''No draft available'' | Some d \<Rightarrow> d)\<rparr>"

text \<open>
  The cycle that \<open>build_pipeline\<close> wires: \<open>critique_paper\<close>, then the conditional edge,
  which leads to \<open>revise_paper\<close> and back to \<open>critique_paper\<close>, or to \<open>final_draft\<close> and the
  end. The nodes are arguments; the graph runs as long as the edge says so, hence the
  result is an option, \<open>None\<close> standing for a run that does not end. The nodes visited are
  recorded in order.
\<close>

partial_function (option) review_cycle ::
  "(paper_state \<Rightarrow> paper_state) \<Rightarrow> (paper_state \<Rightarrow> decision) \<Rightarrow> (paper_state \<Rightarrow> paper_state)
     \<Rightarrow> (paper_state \<Rightarrow> paper_state) \<Rightarrow> node list \<Rightarrow> paper_state
     \<Rightarrow> (paper_state \<times> node list) option" where
  "review_cycle critique_fn route revise_fn final_fn visited s =
     (let s1 = critique_fn s in
      case route s1 of
        ToRevisePaper \<Rightarrow>
          review_cycle critique_fn route revise_fn final_fn
            (visited @ [CritiquePaper, RevisePaper]) (revise_fn s1)
      | ToFinalDraft \<Rightarrow> Some (final_fn s1, visited @ [CritiquePaper, FinalDraft]))"

text \<open>
  \<open>run_generate_only\<close>: the stage functions before the critique are the list \<open>stages\<close>;
  then one critique, the decision, at most one revision with its second critique, and
  the final node. \<open>run_revise_only\<close> revises once without asking \<open>revise_node\<close>.
\<close>

definition run_generate_only ::
  "(paper_state \<Rightarrow> paper_state) list \<Rightarrow> (paper_state \<Rightarrow> paper_state) \<Rightarrow> (paper_state \<Rightarrow> decision)
     \<Rightarrow> (paper_state \<Rightarrow> paper_state) \<Rightarrow> (paper_state \<Rightarrow> paper_state) \<Rightarrow> paper_state
     \<Rightarrow> paper_state \<times> node list" where
  "run_generate_only stages critique_fn route revise_fn final_fn s0 =
     (let s = fold (\<lambda>fn st. fn st) stages s0;
          s1 = critique_fn s
      in if route s1 = ToRevisePaper
         then (final_fn (critique_fn (revise_fn s1)),
               [CritiquePaper, RevisePaper, CritiquePaper, FinalDraft])
         else (final_fn s1, [CritiquePaper, FinalDraft]))"

definition run_revise_only ::
  "(paper_state \<Rightarrow> paper_state) \<Rightarrow> (paper_state \<Rightarrow> paper_state) \<Rightarrow> (paper_state \<Rightarrow> paper_state)
     \<Rightarrow> paper_state \<Rightarrow> paper_state \<times> node list" where
  "run_revise_only critique_fn revise_fn final_fn s =
     (final_fn (critique_fn (revise_fn (critique_fn s))),
      [CritiquePaper, RevisePaper, CritiquePaper, FinalDraft])"

text \<open>The initial state of \<open>run_pipeline\<close>, and a critique that is never satisfied.\<close>

definition initial_paper_state :: "string \<Rightarrow> paper_state" where
  "initial_paper_state t =
     \<lparr>ps_topic = t, step_log = [], errors = [], revision_count = 0, critique = None,
      aggregated_draft = None, final_draft = None\<rparr>"

definition ex_harsh_judge :: "paper_state \<Rightarrow> critique_result" where
  "ex_harsh_judge s = \<lparr>inadequate = True, suggestions = [''rewrite'']\<rparr>"

definition ex_rewrite :: "paper_state \<Rightarrow> string" where
  "ex_rewrite s = ''revised draft''"

text \<open>
  The situation of fallback exhaustion: whatever the call, the model and the prompt, the
  client raises or gives an empty text.
\<close>

definition no_text :: "llm_client \<Rightarrow> bool" where
  "no_text llm = (\<forall>k m q. case llm k m q of LlmRaises msg \<Rightarrow> True | LlmText text \<Rightarrow> text = [])"

text \<open>
  A parsed value on which the \<open>try\<close> block of \<open>extract_insights\<close> raises, so that the loop
  moves on to the next model: a value that is not a dictionary, or a dictionary that has
  a number or a boolean under \<open>key_findings\<close>.
\<close>

definition raises_in_try :: "json \<Rightarrow> bool" where
  "raises_in_try v =
     (case v of
        JObject parsed \<Rightarrow>
          (case map_of (ensure_fields required_fields parsed) ''key_findings'' of
             None \<Rightarrow> False
           | Some x \<Rightarrow> \<not> has_len x)
      | _ \<Rightarrow> True)"

text \<open>Every answer is an exception, an empty text, or a text on whose parse the block raises.\<close>

definition every_model_fails :: "llm_client \<Rightarrow> (string \<Rightarrow> json) \<Rightarrow> bool" where
  "every_model_fails llm parse =
     (\<forall>k m q. case llm k m q of
                 LlmRaises msg \<Rightarrow> True
               | LlmText text \<Rightarrow> text = [] \<or> raises_in_try (parse text))"








definition ex_blank_library :: pdf_library where
  "ex_blank_library = (\<lambda>data. Inr ['' ''])"

definition ex_three_pages :: pdf_library where
  "ex_three_pages = (\<lambda>data. Inr [''one'', '' '', ''two''])"

definition ex_dead_net :: network where
  "ex_dead_net = (\<lambda>k url. RequestFailed ''timeout'')"

section \<open>Properties of utils.py\<close>

lemma split_paras_nonempty: "split_paras s \<noteq> []"
  by (induction s rule: split_paras.induct) (auto split: list.splits)

lemma join_split_paras: "join_paras (split_paras s) = s"
proof (induction s rule: split_paras.induct)
  case 1
  show ?case by simp
next
  case (2 c)
  show ?case by simp
next
  case (3 c d cs)
  show ?case
  proof (cases "c = NL \<and> d = NL")
    case True
    with 3 show ?thesis
      by (cases "split_paras cs") (simp_all add: para_sep_def split_paras_nonempty)
  next
    case False
    obtain p ps where sp: "split_paras (d # cs) = p # ps"
      using split_paras_nonempty [of "d # cs"] by (cases "split_paras (d # cs)") auto
    from 3(2) [OF False] sp have "join_paras (p # ps) = d # cs" by simp
    then have j: "join_paras ((c # p) # ps) = c # d # cs"
      by (cases ps) simp_all
    from False sp have "split_paras (c # d # cs) = (c # p) # ps"
      by auto
    with j show ?thesis by simp
  qed
qed

lemma join_paras_append:
  "xs \<noteq> [] \<Longrightarrow> ys \<noteq> [] \<Longrightarrow> join_paras (xs @ ys) = join_paras xs @ para_sep @ join_paras ys"
proof (induction xs rule: join_paras.induct)
  case 1
  then show ?case by simp
next
  case (2 p)
  then show ?case by (cases ys) simp_all
next
  case (3 p q ps)
  then show ?case by simp
qed

lemma join_paras_snoc_app: "join_paras (chunks @ [a @ b]) = join_paras (chunks @ [a]) @ b"
  by (cases "chunks = []") (simp_all add: join_paras_append)

lemma join_paras_snoc_join:
  "cur \<noteq> [] \<Longrightarrow> join_paras (chunks @ [join_paras cur]) = join_paras (chunks @ cur)"
  by (cases "chunks = []") (simp_all add: join_paras_append)

text \<open>
  The loop invariant: flushing the current chunk after the loop gives the same joined text
  as joining everything seen so far with the paragraphs still to come.
\<close>

lemma chunk_loop_join:
  "chunk_loop ct mx ps chunks cur tok = (chunks', cur', tok') \<Longrightarrow>
     cur \<noteq> [] \<or> chunks = [] \<Longrightarrow>
     (cur' \<noteq> [] \<or> chunks' = []) \<and>
     join_paras (if cur' \<noteq> [] then chunks' @ [join_paras cur'] else chunks')
       = join_paras ((if cur \<noteq> [] then chunks @ [join_paras cur] else chunks) @ ps)"
proof (induction ps arbitrary: chunks cur tok)
  case Nil
  then show ?case by auto
next
  case (Cons para ps)
  show ?case
  proof (cases "tok + ct para > mx \<and> cur \<noteq> []")
    case True
    with Cons.prems have run:
      "chunk_loop ct mx ps (chunks @ [join_paras cur]) [para] (ct para) = (chunks', cur', tok')"
      by (simp add: Let_def)
    from Cons.IH [OF run] have
      "(cur' \<noteq> [] \<or> chunks' = []) \<and>
       join_paras (if cur' \<noteq> [] then chunks' @ [join_paras cur'] else chunks')
         = join_paras (((chunks @ [join_paras cur]) @ [join_paras [para]]) @ ps)"
      by simp
    with True show ?thesis by simp
  next
    case False
    with Cons.prems have run:
      "chunk_loop ct mx ps chunks (cur @ [para]) (tok + ct para) = (chunks', cur', tok')"
      by (simp add: Let_def)
    from Cons.IH [OF run] have ih:
      "(cur' \<noteq> [] \<or> chunks' = []) \<and>
       join_paras (if cur' \<noteq> [] then chunks' @ [join_paras cur'] else chunks')
         = join_paras ((chunks @ [join_paras (cur @ [para])]) @ ps)"
      by simp
    have "join_paras ((chunks @ [join_paras (cur @ [para])]) @ ps)
            = join_paras ((if cur \<noteq> [] then chunks @ [join_paras cur] else chunks) @ para # ps)"
    proof (cases "cur = []")
      case True
      with Cons.prems(2) show ?thesis by simp
    next
      case cur: False
      have l: "join_paras ((chunks @ [join_paras (cur @ [para])]) @ ps)
                 = join_paras (chunks @ [join_paras (cur @ [para])]) @
                     (if ps = [] then [] else para_sep @ join_paras ps)"
        using join_paras_append [of "chunks @ [join_paras (cur @ [para])]" ps]
        by (cases "ps = []") simp_all
      have r: "join_paras ((chunks @ [join_paras cur]) @ para # ps)
                 = join_paras (chunks @ [join_paras cur]) @ para_sep @ join_paras (para # ps)"
        by (rule join_paras_append) simp_all
      have m: "join_paras (chunks @ [join_paras (cur @ [para])])
                 = join_paras (chunks @ [join_paras cur]) @ para_sep @ para"
      proof -
        have "join_paras (cur @ [para]) = join_paras cur @ (para_sep @ para)"
          using cur by (simp add: join_paras_append)
        then show ?thesis
          by (simp only: join_paras_snoc_app)
      qed
      have t: "join_paras (para # ps) = para @ (if ps = [] then [] else para_sep @ join_paras ps)"
        by (cases ps) simp_all
      from l r m t cur show ?thesis by simp
    qed
    with ih show ?thesis by simp
  qed
qed

text \<open>
  Claim C9. For every input text, every token counter and every token budget (so for
  every positive budget), joining the chunks returned by \<open>chunk_text\<close> with the separator
  \<open>'\n\n'\<close> gives back the input text exactly.
\<close>

theorem chunk_text_join_roundtrip: "join_paras (chunk_text ct text max_tokens) = text"
proof -
  obtain chunks cur tok where
    run: "chunk_loop ct max_tokens (split_paras text) [] [] 0 = (chunks, cur, tok)"
    by (cases "chunk_loop ct max_tokens (split_paras text) [] [] 0") auto
  from chunk_loop_join [OF run] have
    "join_paras (if cur \<noteq> [] then chunks @ [join_paras cur] else chunks)
       = join_paras (split_paras text)"
    by simp
  with run show ?thesis
    by (simp add: chunk_text_def join_split_paras)
qed

subsection \<open>sanitize_filename\<close>

lemma rsplit1_None: "(rsplit1 sep s = None) = (sep \<notin> set s)"
  by (induction s) (auto split: option.splits)

lemma rsplit1_Some: "rsplit1 sep s = Some (n, e) \<Longrightarrow> s = n @ sep # e \<and> sep \<notin> set e"
  by (induction s arbitrary: n e) (auto simp: rsplit1_None split: option.splits if_splits)

lemma re_sub_invalid_clean: "set (re_sub_invalid s) \<inter> invalid_chars = {}"
  by (auto simp: re_sub_invalid_def invalid_chars_def)

lemma length_re_sub_invalid: "length (re_sub_invalid s) = length s"
  by (simp add: re_sub_invalid_def)

text \<open>
  The result of \<open>sanitize_filename\<close> never contains one of the characters of the class
  \<open>invalid_chars\<close>, whatever the input.
\<close>

lemma sanitize_filename_no_invalid: "set (sanitize_filename s) \<inter> invalid_chars = {}"
proof -
  let ?f = "re_sub_invalid s"
  have clean: "set ?f \<inter> invalid_chars = {}" by (rule re_sub_invalid_clean)
  have dots: "CHR ''.'' \<notin> invalid_chars" by (simp add: invalid_chars_def)
  show ?thesis
  proof (cases "length ?f > 200")
    case False
    with clean show ?thesis by (simp add: sanitize_filename_def Let_def)
  next
    case long: True
    show ?thesis
    proof (cases "CHR ''.'' \<in> set ?f")
      case False
      with long clean dots show ?thesis
        using set_take_subset [of 195 ?f]
        by (auto simp: sanitize_filename_def Let_def)
    next
      case True
      then obtain n e where sp: "rsplit1 (CHR ''.'') ?f = Some (n, e)"
        using rsplit1_None [of "CHR ''.''" ?f] by (cases "rsplit1 (CHR ''.'') ?f") auto
      from rsplit1_Some [OF sp] have f: "?f = n @ CHR ''.'' # e" by simp
      with clean have "set n \<inter> invalid_chars = {}" "set e \<inter> invalid_chars = {}"
        by auto
      with long True sp dots show ?thesis
        using set_take_subset [of 195 n]
        by (auto simp: sanitize_filename_def Let_def)
    qed
  qed
qed

lemma rsplit1_replicate_pdf:
  "rsplit1 (CHR ''.'') (replicate k (CHR ''a'') @ ''.pdf'') = Some (replicate k (CHR ''a''), ''pdf'')"
  by (induction k) simp_all

lemma re_sub_invalid_replicate_pdf:
  "re_sub_invalid (replicate k (CHR ''a'') @ ''.pdf'') = replicate k (CHR ''a'') @ ''.pdf''"
  by (simp add: re_sub_invalid_def invalid_chars_def)

text \<open>
  Claim C10. The claim bounds the length of the result by 200. The source cuts the name to
  195 characters and appends three dots, but then appends the dot and the whole extension
  again: on the 201 characters \<open>a\<close> (197 times) followed by \<open>.pdf\<close> the result is
  \<open>a\<close> (195 times) followed by \<open>....pdf\<close>, of length 202.
\<close>

theorem sanitize_filename_overlong:
  "sanitize_filename (replicate 197 (CHR ''a'') @ ''.pdf'') = replicate 195 (CHR ''a'') @ ''....pdf''
   \<and> length (sanitize_filename (replicate 197 (CHR ''a'') @ ''.pdf'')) = 202"
  by (simp add: sanitize_filename_def re_sub_invalid_replicate_pdf rsplit1_replicate_pdf Let_def)

section \<open>Properties of papersearch.py\<close>

subsection \<open>validate_pdf\<close>

lemma ex_path: "pdf_path_of ex_paper ''d'' = ''d/T.pdf''"
  by (simp add: pdf_path_of_def ex_paper_def path_join_def sanitize_filename_def
      re_sub_invalid_def invalid_chars_def Let_def)

lemma ex_name: "path_name ''d/T.pdf'' = ''T.pdf''"
  by (simp add: path_name_def)

lemma ex_suffix: "lower (path_suffix ''d/T.pdf'') = ''.pdf''"
  by (simp add: path_suffix_def path_name_def lower_def lower_char_def Let_def)

text \<open>
  Where \<open>exists\<close> does not raise, \<open>validate_pdf\<close> returns a boolean, which is true exactly
  when the file is there, the suffix is \<open>.pdf\<close> in lower case, the size is not zero, and the
  first four bytes can be read and are \<open>%PDF\<close>.
\<close>

lemma validate_pdf_when_exists_returns:
  "path_exists fs p = Inr ex \<Longrightarrow>
     validate_pdf fs p =
       Inr (\<exists>f. fs p = Some (Regular f) \<and> lower (path_suffix p) = ''.pdf''
                 \<and> length (content f) > 0 \<and> readable f \<and> take 4 (content f) = ''%PDF'')"
  by (auto simp: validate_pdf_def path_exists_def stat_st_size_def open_read_def os_stat_def
      split: option.splits sum.splits fs_entry.splits exn.splits if_splits)

lemma validate_pdf_raises_iff:
  "(\<exists>e. validate_pdf fs p = Inl e) = (\<exists>e. path_exists fs p = Inl e)"
  by (auto simp: validate_pdf_def path_exists_def stat_st_size_def open_read_def os_stat_def
      split: option.splits sum.splits fs_entry.splits exn.splits if_splits)

lemma long_name: "path_name (replicate 256 (CHR ''a'') @ ''.pdf'') = replicate 256 (CHR ''a'') @ ''.pdf''"
proof -
  have "CHR ''/'' \<notin> set (replicate 256 (CHR ''a'') @ ''.pdf'')" by auto
  then have "rsplit1 (CHR ''/'') (replicate 256 (CHR ''a'') @ ''.pdf'') = None"
    using rsplit1_None [of "CHR ''/''" "replicate 256 (CHR ''a'') @ ''.pdf''"] by blast
  then show ?thesis by (simp add: path_name_def)
qed

text \<open>
  Claim C3. The claim says that \<open>validate_pdf\<close> returns false on any file system error
  and never raises. The source catches only the error of opening and reading the header:
  \<open>exists\<close> and \<open>stat\<close> are called outside the \<open>try\<close>. On a path that the process is denied
  to look at, \<open>validate_pdf\<close> raises \<open>PermissionError\<close>, and on a file name longer than
  \<open>NAME_MAX\<close> it raises \<open>OSError\<close>. Where \<open>exists\<close> does not raise, the rest of the claim
  holds (lemma \<open>validate_pdf_when_exists_returns\<close>).
\<close>

theorem validate_pdf_raises:
  "validate_pdf ex_denied_fs ''d/T.pdf'' = Inl PermissionError
   \<and> validate_pdf Map.empty (replicate 256 (CHR ''a'') @ ''.pdf'') = Inl (OSError ''File name too long'')"
  by (simp add: validate_pdf_def path_exists_def os_stat_def ex_denied_fs_def ex_name long_name
      NAME_MAX_def)

subsection \<open>The retry decorator\<close>

lemma retrying_returns:
  "body w = (Inr v, w') \<Longrightarrow> retrying left k wait body w = ((Inr v, w'), k, [])"
  by (cases left) simp_all

lemma retrying_Inr_from_body:
  "retrying left k wait body w = ((Inr v, w'), attempts, delays) \<Longrightarrow> \<exists>w0. body w0 = (Inr v, w')"
proof (induction left arbitrary: k w attempts delays)
  case 0
  then show ?case
    by (cases "body w") (auto split: sum.splits)
next
  case (Suc left)
  obtain r w1 where b: "body w = (r, w1)" by (cases "body w") auto
  show ?case
  proof (cases r)
    case (Inr v')
    with b Suc.prems show ?thesis by auto
  next
    case (Inl e)
    obtain r2 a2 d2 where rec: "retrying left (Suc k) wait body w1 = (r2, a2, d2)"
      by (cases "retrying left (Suc k) wait body w1") auto
    with b Inl Suc.prems have "r2 = (Inr v, w')" by simp
    with rec Suc.IH show ?thesis by blast
  qed
qed

lemma retrying_always_raises:
  "(\<And>w. \<exists>e w'. body w = (Inl e, w')) \<Longrightarrow>
     \<exists>e w'. retrying left k wait body w = ((Inl (RetryError e), w'), k + left, map wait [k..<k + left])"
proof (induction left arbitrary: k w)
  case 0
  from 0 [of w] obtain e w' where "body w = (Inl e, w')" by blast
  then show ?case by simp
next
  case (Suc left)
  from Suc.prems [of w] obtain e w' where b: "body w = (Inl e, w')" by blast
  from Suc.IH [OF Suc.prems, of "Suc k" w'] obtain e' w'' where
    r: "retrying left (Suc k) wait body w'
          = ((Inl (RetryError e'), w''), Suc k + left, map wait [Suc k..<Suc k + left])"
    by blast
  have "[k..<k + Suc left] = k # [Suc k..<Suc k + left]"
    by (simp add: upt_conv_Cons)
  with b r show ?case by simp
qed

lemma wait_exponential_mono:
  "0 \<le> multiplier \<Longrightarrow>
     wait_exponential multiplier mn mx k \<le> wait_exponential multiplier mn mx (Suc k)"
proof -
  assume m: "0 \<le> multiplier"
  have "(2::int) ^ (k - 1) \<le> 2 ^ (Suc k - 1)"
    by (rule power_increasing) simp_all
  with m have "multiplier * 2 ^ (k - 1) \<le> multiplier * 2 ^ (Suc k - 1)"
    by (rule mult_left_mono [rotated])
  then show ?thesis
    unfolding wait_exponential_def by (simp add: max_def min_def)
qed

subsection \<open>search_papers\<close>

lemma search_papers_always_fails:
  assumes "\<And>k q n. \<exists>msg. svc k q n = SearchFailed msg"
  shows "\<exists>e w'. search_papers svc query limit w = ((Inl (RetryError e), w'), 3, [2, 2])"
proof -
  have body: "\<And>w :: world. \<exists>e w'. search_papers_body svc query limit w = (Inl e, w')"
  proof -
    fix w :: world
    from assms [of "requests w" query "limit * 2"] obtain msg where
      "svc (requests w) query (limit * 2) = SearchFailed msg" by blast
    then show "\<exists>e w'. search_papers_body svc query limit w = (Inl e, w')"
      by (simp add: search_papers_body_def Let_def)
  qed
  have w12: "map (wait_exponential 1 2 10) [1..<1 + 2] = [2, 2]"
    by (simp add: wait_exponential_def upt_conv_Cons)
  from retrying_always_raises [of "search_papers_body svc query limit" 2 1 "wait_exponential 1 2 10" w, OF body]
  obtain e w' where
    "retrying 2 1 (wait_exponential 1 2 10) (search_papers_body svc query limit) w
       = ((Inl (RetryError e), w'), 1 + 2, map (wait_exponential 1 2 10) [1..<1 + 2])"
    by blast
  then have
    "retrying (3 - 1) 1 (wait_exponential 1 2 10) (search_papers_body svc query limit) w
       = ((Inl (RetryError e), w'), 3, [2, 2])"
    by (simp only: w12) (simp del: One_nat_def retrying.simps)
  then show ?thesis
    unfolding search_papers_def retry_def by blast
qed

subsection \<open>download_pdf\<close>

lemma validate_pdf_True_exists: "validate_pdf fs p = Inr True \<Longrightarrow> path_exists fs p = Inr True"
  by (auto simp: validate_pdf_def split: sum.splits if_splits)

lemma give_up_not_Some: "give_up w fs pdf_path \<noteq> (Inr (Some path), w')"
  by (auto simp: give_up_def split: sum.splits)

lemma fetch_and_store_Some:
  "fetch_and_store net p pdf_path w = (Inr (Some path), w') \<Longrightarrow>
     path = pdf_path \<and> validate_pdf (files w') pdf_path = Inr True"
  by (auto simp: fetch_and_store_def Let_def give_up_not_Some
      split: http_result.splits if_splits prod.splits option.splits sum.splits)

lemma download_pdf_body_Some:
  "download_pdf_body net p save_dir w = (Inr (Some path), w') \<Longrightarrow>
     path = pdf_path_of p save_dir \<and> validate_pdf (files w') (pdf_path_of p save_dir) = Inr True"
  by (auto simp: download_pdf_body_def Let_def
      split: sum.splits if_splits dest: fetch_and_store_Some)

lemma download_pdf_body_existing_valid:
  "validate_pdf (files w) (pdf_path_of p save_dir) = Inr True \<Longrightarrow>
     download_pdf_body net p save_dir w = (Inr (Some (pdf_path_of p save_dir)), w)"
  by (simp add: download_pdf_body_def Let_def validate_pdf_True_exists)

lemma download_pdf_ex:
  "download_pdf ex_net ex_paper ''d'' ex_world
     = ((Inr (Some ''d/T.pdf''),
         \<lparr>files = [''d/T.pdf'' \<mapsto> Regular \<lparr>content = ''%PDF-1.4 body'', readable = True\<rparr>],
          requests = 1, max_file_size = None\<rparr>), 1, [])"
proof -
  have "download_pdf_body ex_net ex_paper ''d'' ex_world
          = (Inr (Some ''d/T.pdf''),
             \<lparr>files = [''d/T.pdf'' \<mapsto> Regular \<lparr>content = ''%PDF-1.4 body'', readable = True\<rparr>],
              requests = 1, max_file_size = None\<rparr>)"
    by (simp add: download_pdf_body_def fetch_and_store_def write_file_def ex_path
        ex_world_def ex_net_def path_exists_def validate_pdf_def ex_suffix ex_name
        stat_st_size_def open_read_def os_stat_def NAME_MAX_def unlink_def Let_def)
  then show ?thesis
    by (simp add: download_pdf_def retry_def retrying_returns)
qed

text \<open>
  Claim C7. When a call of \<open>download_pdf\<close> has returned a path, a second call for the same
  paper in the world the first call left, on any network, returns the same path after one
  attempt and leaves the world unchanged: the count of network requests does not move.
\<close>

theorem download_pdf_idempotent:
  "download_pdf net p save_dir w = ((Inr (Some path), w1), attempts, delays) \<Longrightarrow>
     download_pdf net' p save_dir w1 = ((Inr (Some path), w1), 1, [])"
proof -
  assume run: "download_pdf net p save_dir w = ((Inr (Some path), w1), attempts, delays)"
  then obtain w0 where body: "download_pdf_body net p save_dir w0 = (Inr (Some path), w1)"
    unfolding download_pdf_def retry_def by (blast dest: retrying_Inr_from_body)
  from download_pdf_body_Some [OF body] have
    "path = pdf_path_of p save_dir" "validate_pdf (files w1) (pdf_path_of p save_dir) = Inr True"
    by auto
  then show ?thesis
    by (simp add: download_pdf_def retry_def retrying_returns download_pdf_body_existing_valid)
qed

theorem download_pdf_idempotent_witness:
  "\<exists>w1 attempts delays.
     download_pdf ex_net ex_paper ''d'' ex_world = ((Inr (Some ''d/T.pdf''), w1), attempts, delays)
     \<and> download_pdf ex_dead_net ex_paper ''d'' w1
         = ((Inr (Some ''d/T.pdf''), w1), 1, [])"
  using download_pdf_idempotent [OF download_pdf_ex, of ex_dead_net] download_pdf_ex
  by blast

text \<open>
  Claim C5. At the search call site the claim holds: when every request fails, the body
  raises \<open>PaperSearchError\<close> each time, and the decorator makes exactly three attempts with
  delays 2 and 2 (lemmas \<open>search_papers_always_fails\<close>, \<open>wait_exponential_mono\<close>). At the
  download call site it does not: the body catches the \<open>RequestException\<close> and returns
  \<open>None\<close>, which the decorator takes for a result, so a download whose request always fails
  is attempted once.
\<close>

theorem download_pdf_single_attempt:
  "download_pdf ex_dead_net ex_paper ''d''
       \<lparr>files = Map.empty, requests = 0, max_file_size = None\<rparr>
     = ((Inr None, \<lparr>files = Map.empty, requests = 1, max_file_size = None\<rparr>), 1, [])"
proof -
  have "download_pdf_body ex_dead_net ex_paper ''d''
          \<lparr>files = Map.empty, requests = 0, max_file_size = None\<rparr>
        = (Inr None, \<lparr>files = Map.empty, requests = 1, max_file_size = None\<rparr>)"
    by (simp add: download_pdf_body_def fetch_and_store_def give_up_def cleanup_partial_def
        ex_dead_net_def ex_path path_exists_def os_stat_def ex_name NAME_MAX_def Let_def)
  then show ?thesis
    by (simp add: download_pdf_def retry_def retrying_returns)
qed

text \<open>The attempts of the download in the world with the file size limit of two bytes.\<close>

lemma limited_attempt_first:
  "download_pdf_body ex_net ex_paper ''d'' ex_limited_world
     = (Inl (OSError ''File too large''),
        \<lparr>files = ex_partial_fs, requests = 1, max_file_size = Some 2\<rparr>)"
  by (simp add: download_pdf_body_def fetch_and_store_def write_file_def ex_path
      ex_limited_world_def ex_partial_fs_def ex_net_def path_exists_def os_stat_def ex_name
      NAME_MAX_def Let_def)

lemma limited_attempt_next:
  "download_pdf_body ex_net ex_paper ''d''
       \<lparr>files = ex_partial_fs, requests = k, max_file_size = Some 2\<rparr>
     = (Inl (OSError ''File too large''),
        \<lparr>files = ex_partial_fs, requests = Suc k, max_file_size = Some 2\<rparr>)"
  by (simp add: download_pdf_body_def fetch_and_store_def write_file_def ex_path
      ex_partial_fs_def ex_net_def path_exists_def validate_pdf_def ex_suffix
      stat_st_size_def open_read_def os_stat_def ex_name NAME_MAX_def unlink_def Let_def)

text \<open>
  Claim C6. The claim says that no partial file stays at the target path. The source
  cleans up only in the handler of \<open>RequestException\<close>. When the write fails with
  \<open>OSError\<close>, here under a file size limit of two bytes, the exception leaves the body with
  the partial file in place; the decorator retries, each attempt removes the partial file
  and writes it again, and after three attempts \<open>RetryError\<close> is raised while the target
  path holds the two bytes \<open>%P\<close>, which do not pass \<open>validate_pdf\<close>. Where no local
  operation fails, the claim holds (lemma \<open>download_pdf_local_ok\<close>, stated after the
  theorem).
\<close>

theorem download_pdf_leaves_partial_file:
  "download_pdf ex_net ex_paper ''d'' ex_limited_world
     = ((Inl (RetryError (OSError ''File too large'')),
         \<lparr>files = ex_partial_fs, requests = 3, max_file_size = Some 2\<rparr>), 3, [2, 2])
   \<and> ex_partial_fs (pdf_path_of ex_paper ''d'') = Some (Regular \<lparr>content = ''%P'', readable = True\<rparr>)
   \<and> validate_pdf ex_partial_fs (pdf_path_of ex_paper ''d'') = Inr False"
proof -
  have r: "retrying (Suc (Suc 0)) 1 (wait_exponential 1 2 10)
             (download_pdf_body ex_net ex_paper ''d'') ex_limited_world
           = ((Inl (RetryError (OSError ''File too large'')),
               \<lparr>files = ex_partial_fs, requests = 3, max_file_size = Some 2\<rparr>), 3, [2, 2])"
    by (simp add: limited_attempt_first limited_attempt_next wait_exponential_def
        numeral_3_eq_3)
  have "(3::nat) - 1 = Suc (Suc 0)" by simp
  with r have "download_pdf ex_net ex_paper ''d'' ex_limited_world
           = ((Inl (RetryError (OSError ''File too large'')),
               \<lparr>files = ex_partial_fs, requests = 3, max_file_size = Some 2\<rparr>), 3, [2, 2])"
    by (simp only: download_pdf_def retry_def)
  moreover have "validate_pdf ex_partial_fs (pdf_path_of ex_paper ''d'') = Inr False"
    by (simp add: ex_path ex_partial_fs_def validate_pdf_def path_exists_def os_stat_def
        ex_name ex_suffix NAME_MAX_def stat_st_size_def open_read_def)
  ultimately show ?thesis
    by (simp add: ex_path ex_partial_fs_def)
qed

text \<open>
  Where no local operation fails (the name is short enough, the entry is not denied, no
  file size limit), the download makes one attempt and leaves no invalid file.
\<close>

lemma path_exists_after_update:
  "path_exists fs p = Inr ex \<Longrightarrow> fs' p = None \<or> (\<exists>f. fs' p = Some (Regular f)) \<Longrightarrow>
     path_exists fs' p = Inr (fs' p \<noteq> None)"
  by (auto simp: path_exists_def os_stat_def
      split: option.splits sum.splits fs_entry.splits exn.splits if_splits)

lemma give_up_local_ok:
  "path_exists fs0 pdf_path = Inr ex \<Longrightarrow> fs pdf_path = None \<or> (\<exists>f. fs pdf_path = Some (Regular f)) \<Longrightarrow>
     \<exists>fs'. give_up w fs pdf_path = (Inr None, w\<lparr>files := fs'\<rparr>) \<and> fs' pdf_path = None"
  using path_exists_after_update [of fs0 pdf_path ex fs]
  by (auto simp: give_up_def cleanup_partial_def unlink_def)

lemma fetch_and_store_local_ok:
  assumes "max_file_size w = None"
      and "path_exists fs0 pdf_path = Inr ex"
      and "files w pdf_path = None \<or> (\<exists>f. files w pdf_path = Some (Regular f))"
      and "fetch_and_store net p pdf_path w = (r, w')"
  shows "(r = Inr (Some pdf_path) \<and> validate_pdf (files w') pdf_path = Inr True)
         \<or> (r = Inr None \<and> files w' pdf_path = None)"
proof (cases "net (requests w) (pdf_url p)")
  case (RequestFailed msg)
  with assms(4) give_up_local_ok [OF assms(2), of "files w" "w\<lparr>requests := Suc (requests w)\<rparr>"] assms(3)
  show ?thesis by (auto simp: fetch_and_store_def Let_def)
next
  case (Response ok ctype chunks stream_ok)
  let ?data = "concat (filter (\<lambda>chunk. chunk \<noteq> []) chunks)"
  let ?written = "(files w)(pdf_path \<mapsto> Regular \<lparr>content = ?data, readable = True\<rparr>)"
  let ?w1 = "w\<lparr>requests := Suc (requests w)\<rparr>"
  have wr: "write_file (max_file_size ?w1) (files ?w1) pdf_path ?data = (None, ?written)"
    using assms(1) by (simp add: write_file_def)
  have pe: "path_exists ?written pdf_path = Inr True"
    using path_exists_after_update [OF assms(2), of ?written] by simp
  obtain b where v: "validate_pdf ?written pdf_path = Inr b"
    using validate_pdf_when_exists_returns [OF pe] by blast
  show ?thesis
  proof (cases ok)
    case False
    with Response assms(4) give_up_local_ok [OF assms(2), of "files w" ?w1] assms(3)
    show ?thesis by (auto simp: fetch_and_store_def Let_def)
  next
    case True
    show ?thesis
    proof (cases stream_ok)
      case False
      with True Response assms(4) wr give_up_local_ok [OF assms(2), of ?written ?w1]
      show ?thesis by (auto simp: fetch_and_store_def Let_def)
    next
      case sok: True
      with True Response assms(4) wr v show ?thesis
        by (cases b) (auto simp: fetch_and_store_def Let_def unlink_def)
    qed
  qed
qed

lemma download_pdf_local_ok:
  assumes "max_file_size w = None"
      and "path_exists (files w) (pdf_path_of p save_dir) = Inr ex"
      and "download_pdf net p save_dir w = ((r, w'), attempts, delays)"
  shows "attempts = 1
         \<and> ((r = Inr (Some (pdf_path_of p save_dir))
               \<and> validate_pdf (files w') (pdf_path_of p save_dir) = Inr True)
            \<or> (r = Inr None \<and> files w' (pdf_path_of p save_dir) = None))"
proof -
  let ?pp = "pdf_path_of p save_dir"
  obtain rb wb where body: "download_pdf_body net p save_dir w = (rb, wb)"
    by (cases "download_pdf_body net p save_dir w") auto
  obtain b where v: "validate_pdf (files w) ?pp = Inr b"
    using validate_pdf_when_exists_returns [OF assms(2)] by blast
  have res: "(rb = Inr (Some ?pp) \<and> validate_pdf (files wb) ?pp = Inr True)
             \<or> (rb = Inr None \<and> files wb ?pp = None)"
  proof (cases "ex \<and> b")
    case True
    with body v assms(2) show ?thesis by (simp add: download_pdf_body_def Let_def)
  next
    case False
    let ?w0 = "if ex then w\<lparr>files := unlink (files w) ?pp\<rparr> else w"
    have f: "fetch_and_store net p ?pp ?w0 = (rb, wb)"
      using False body v assms(2) by (auto simp: download_pdf_body_def Let_def)
    have m: "max_file_size ?w0 = None" using assms(1) by simp
    have e: "files ?w0 ?pp = None \<or> (\<exists>f. files ?w0 ?pp = Some (Regular f))"
      using assms(2)
      by (auto simp: unlink_def path_exists_def os_stat_def
          split: option.splits sum.splits fs_entry.splits exn.splits if_splits)
    from fetch_and_store_local_ok [OF m assms(2) e f] show ?thesis .
  qed
  then obtain v' where "rb = Inr v'" by auto
  with body have "download_pdf net p save_dir w = ((Inr v', wb), 1, [])"
    by (simp add: download_pdf_def retry_def retrying_returns)
  with assms(3) res \<open>rb = Inr v'\<close> show ?thesis by auto
qed

section \<open>Properties of text_extraction.py\<close>

lemma collect_pages_filter:
  "collect_pages texts pages = pages @ filter (\<lambda>t. strip t \<noteq> []) texts"
  by (induction texts arbitrary: pages) simp_all

lemma strip_Nil: "strip [] = []"
  by (simp add: strip_def)

lemma join_paras_nonempty:
  "ps \<noteq> [] \<Longrightarrow> \<forall>p \<in> set ps. p \<noteq> [] \<Longrightarrow> join_paras ps \<noteq> []"
  by (induction ps rule: join_paras.induct) simp_all

text \<open>
  Claim C8, as stated, fails on a page whose text is not empty but only white space: the
  document below is a valid PDF with one page whose text is a single space, and the
  extraction raises.
\<close>

theorem extract_raw_text_blank_page_raises:
  "validate_pdf ex_pdf_fs ''d/T.pdf'' = Inr True
   \<and> '' '' \<noteq> []
   \<and> extract_raw_text ex_blank_library ex_pdf_fs ''d/T.pdf''
       = Inl (TextExtractionError ''Text extraction failed: No text extracted from PDF'')"
  by (simp add: extract_raw_text_def extract_pages_def validate_pdf_def ex_pdf_fs_def
      ex_blank_library_def path_exists_def os_stat_def ex_name NAME_MAX_def ex_suffix
      stat_st_size_def open_read_def file_bytes_def strip_def is_space_def Let_def)

text \<open>
  Claim C8, amended. For a valid PDF whose pages the library reads, \<open>extract_raw_text\<close>
  raises \<open>TextExtractionError\<close> exactly when no page has a text that is non-empty after
  stripping white space; otherwise it returns the texts of the pages that have such a
  text, in page order, joined by two newlines, and this result is not empty.
\<close>

theorem extract_raw_text_pages:
  assumes "validate_pdf fs pdf_path = Inr True"
      and "fitz (file_bytes fs pdf_path) = Inr texts"
  shows "extract_raw_text fitz fs pdf_path =
           (if filter (\<lambda>t. strip t \<noteq> []) texts = []
            then Inl (TextExtractionError ''Text extraction failed: No text extracted from PDF'')
            else Inr (join_paras (filter (\<lambda>t. strip t \<noteq> []) texts)))
         \<and> (filter (\<lambda>t. strip t \<noteq> []) texts \<noteq> []
              \<longrightarrow> join_paras (filter (\<lambda>t. strip t \<noteq> []) texts) \<noteq> [])"
proof -
  have ne: "\<forall>p \<in> set (filter (\<lambda>t. strip t \<noteq> []) texts). p \<noteq> []"
    using strip_Nil by auto
  from assms show ?thesis
    using join_paras_nonempty [OF _ ne]
    by (simp add: extract_raw_text_def extract_pages_def collect_pages_filter Let_def)
qed

theorem extract_raw_text_pages_witness:
  "validate_pdf ex_pdf_fs ''d/T.pdf'' = Inr True
   \<and> ex_three_pages (file_bytes ex_pdf_fs ''d/T.pdf'') = Inr [''one'', '' '', ''two'']
   \<and> extract_raw_text ex_three_pages ex_pdf_fs ''d/T.pdf''
       = Inr (''one'' @ [NL, NL] @ ''two'')"
proof -
  have v: "validate_pdf ex_pdf_fs ''d/T.pdf'' = Inr True"
    by (simp add: validate_pdf_def ex_pdf_fs_def path_exists_def os_stat_def ex_name
        NAME_MAX_def ex_suffix stat_st_size_def open_read_def)
  have f: "ex_three_pages (file_bytes ex_pdf_fs ''d/T.pdf'') = Inr [''one'', '' '', ''two'']"
    by (simp add: ex_three_pages_def)
  from extract_raw_text_pages [of ex_pdf_fs "''d/T.pdf''" ex_three_pages, OF v f] v f
  show ?thesis
    by (simp add: strip_def is_space_def para_sep_def)
qed

section \<open>Properties of the fallback chain\<close>

lemma no_textD: "no_text llm \<Longrightarrow> llm k m q = LlmText [] \<or> (\<exists>msg. llm k m q = LlmRaises msg)"
  unfolding no_text_def by (cases "llm k m q") (auto split: llm_reply.splits dest: spec)



lemma no_text_every_model_fails: "no_text llm \<Longrightarrow> every_model_fails llm parse"
  unfolding no_text_def every_model_fails_def
  by (auto split: llm_reply.splits)

lemma not_raises_in_try_empty: "\<not> raises_in_try (JObject [])"
  by (simp add: raises_in_try_def required_fields_def)






lemma try_models_insights_exhausted:
  "no_text llm \<Longrightarrow>
     try_models_insights llm parse prompt models calls = (None, calls + length models)"
proof (induction models arbitrary: calls)
  case Nil
  show ?case by simp
next
  case (Cons m models)
  from no_textD [OF Cons.prems, of calls m prompt] Cons.IH [OF Cons.prems, of "Suc calls"]
  show ?case by auto
qed





lemma extract_insights_body_exhausted:
  "no_text llm \<Longrightarrow>
     \<exists>calls'. extract_insights_body llm parse render model fallbacks sections calls
       = (Inr default_insights, calls')"
  by (simp add: extract_insights_body_def try_models_insights_exhausted
      del: try_models_insights.simps)










section \<open>Properties of app.py\<close>

lemma finalize_node_progress_nonempty: "progress (finalize_node e now s) \<noteq> []"
  by (simp add: finalize_node_def Let_def)

lemma extract_node_short_circuit: "has_error s \<Longrightarrow> extract_node e outcome t s = s"
  by (simp add: extract_node_def)

lemma analyze_node_short_circuit: "has_error s \<Longrightarrow> analyze_node e outcome t s = s"
  by (simp add: analyze_node_def)

lemma draft_node_short_circuit: "has_error s \<Longrightarrow> draft_node e outcome t s = s"
  by (simp add: draft_node_def)

lemma finalize_node_failed:
  "has_error s \<Longrightarrow>
     finalize_node e now s =
       s\<lparr>progress := progress s @
           [[NL] @ summary_rule, glyph e ''chart'' @ '' PIPELINE SUMMARY'', summary_rule,
            glyph e ''cross'' @ '' Status: Failed'',
            glyph e ''warning'' @ '' Error: '' @ the (error s)]\<rparr>"
proof -
  assume h: "has_error s"
  then obtain msg where "error s = Some msg"
    by (cases "error s") (simp_all add: has_error_def)
  with h show ?thesis
    by (simp add: finalize_node_def Let_def)
qed

lemma finalize_node_progress_length:
  "length (progress (finalize_node e now s)) \<ge> length (progress s) + 5"
  by (simp add: finalize_node_def Let_def)

text \<open>
  Claim C2. On a state whose error is set, \<open>extract_node\<close>, \<open>analyze_node\<close> and
  \<open>draft_node\<close> return the state unchanged, whatever their collaborators would have
  answered; \<open>finalize_node\<close> runs all the same and appends the five lines of the failure
  summary to the progress log. On every state, with or without error, the progress log
  after \<open>finalize_node\<close> is not empty and is at least five lines longer than before.
\<close>

theorem short_circuit_propagation:
  "(has_error s \<longrightarrow>
      extract_node e extract_outcome t1 s = s
      \<and> analyze_node e analyze_outcome t2 s = s
      \<and> draft_node e draft_outcome t3 s = s
      \<and> finalize_node e now s =
          s\<lparr>progress := progress s @
              [[NL] @ summary_rule, glyph e ''chart'' @ '' PIPELINE SUMMARY'', summary_rule,
               glyph e ''cross'' @ '' Status: Failed'',
               glyph e ''warning'' @ '' Error: '' @ the (error s)]\<rparr>)
   \<and> progress (finalize_node e now s) \<noteq> []
   \<and> length (progress (finalize_node e now s)) \<ge> length (progress s) + 5"
  using extract_node_short_circuit [of s e extract_outcome t1]
    analyze_node_short_circuit [of s e analyze_outcome t2]
    draft_node_short_circuit [of s e draft_outcome t3]
    finalize_node_failed [of s e now]
    finalize_node_progress_nonempty [of e now s]
    finalize_node_progress_length [of s e now]
  by blast

theorem short_circuit_propagation_witness:
  "has_error ex_failed_state
   \<and> extract_node ex_env (Inr [''a.json'']) 1 ex_failed_state = ex_failed_state
   \<and> analyze_node ex_env (Inr [''a_analysis.json'']) 1 ex_failed_state = ex_failed_state
   \<and> draft_node ex_env (Inr (ReviewOk ''ok'' ''text'' ''p.reply'')) 1 ex_failed_state = ex_failed_state
   \<and> progress (finalize_node ex_env 5 ex_failed_state) =
        [[NL] @ summary_rule, ''chart PIPELINE SUMMARY'', summary_rule,
         ''cross Status: Failed'', ''warning Error: No papers found with PDF links'']"
proof -
  have h: "has_error ex_failed_state"
    by (simp add: has_error_def ex_failed_state_def create_initial_state_def)
  from short_circuit_propagation [of ex_failed_state ex_env "Inr [''a.json'']" 1
      "Inr [''a_analysis.json'']" 1 "Inr (ReviewOk ''ok'' ''text'' ''p.reply'')" 1 5] h
  show ?thesis
    by (simp add: ex_failed_state_def create_initial_state_def ex_env_def)
qed

section \<open>Properties of pipeline.py\<close>

lemma revise_node_at_cap: "cap \<le> revision_count s \<Longrightarrow> revise_node cap s = ToFinalDraft"
  by (simp add: revise_node_def)

lemma review_cycle_bound:
  assumes inc: "\<forall>s. revision_count (revise_fn s) = revision_count s + 1"
      and keep: "\<forall>s. revision_count (critique_fn s) = revision_count s"
  shows "\<exists>s' v. review_cycle critique_fn (revise_node cap) revise_fn final_fn visited s
                  = Some (s', visited @ v)
           \<and> count_list v CritiquePaper \<le> nat (cap - revision_count s) + 1
           \<and> count_list v RevisePaper \<le> nat (cap - revision_count s)
           \<and> v \<noteq> [] \<and> last v = FinalDraft"
proof (induction "nat (cap - revision_count s)" arbitrary: s visited)
  case 0
  then have "cap \<le> revision_count (critique_fn s)" using keep by simp
  then have "revise_node cap (critique_fn s) = ToFinalDraft" by (rule revise_node_at_cap)
  then have "review_cycle critique_fn (revise_node cap) revise_fn final_fn visited s
               = Some (final_fn (critique_fn s), visited @ [CritiquePaper, FinalDraft])"
    by (subst review_cycle.simps) (simp add: Let_def)
  then show ?case by simp
next
  case (Suc n)
  let ?s1 = "critique_fn s"
  show ?case
  proof (cases "revise_node cap ?s1")
    case ToFinalDraft
    then have "review_cycle critique_fn (revise_node cap) revise_fn final_fn visited s
                 = Some (final_fn ?s1, visited @ [CritiquePaper, FinalDraft])"
      by (subst review_cycle.simps) (simp add: Let_def)
    then show ?thesis by simp
  next
    case ToRevisePaper
    have n: "n = nat (cap - revision_count (revise_fn ?s1))"
      using Suc.hyps(2) inc keep by simp
    from Suc.hyps(1) [OF n, of "visited @ [CritiquePaper, RevisePaper]"]
    obtain s' v where
      r: "review_cycle critique_fn (revise_node cap) revise_fn final_fn
            (visited @ [CritiquePaper, RevisePaper]) (revise_fn ?s1)
            = Some (s', (visited @ [CritiquePaper, RevisePaper]) @ v)"
      and c: "count_list v CritiquePaper \<le> n + 1"
      and rv: "count_list v RevisePaper \<le> n"
      and ne: "v \<noteq> []" and l: "last v = FinalDraft"
      using n by auto
    from ToRevisePaper r have
      "review_cycle critique_fn (revise_node cap) revise_fn final_fn visited s
         = Some (s', visited @ ([CritiquePaper, RevisePaper] @ v))"
      by (subst review_cycle.simps) (simp add: Let_def)
    moreover have "count_list ([CritiquePaper, RevisePaper] @ v) CritiquePaper
                     \<le> nat (cap - revision_count s) + 1"
      using c Suc.hyps(2) by simp
    moreover have "count_list ([CritiquePaper, RevisePaper] @ v) RevisePaper
                     \<le> nat (cap - revision_count s)"
      using rv Suc.hyps(2) by simp
    moreover have "[CritiquePaper, RevisePaper] @ v \<noteq> []
                   \<and> last ([CritiquePaper, RevisePaper] @ v) = FinalDraft"
      using ne l by simp
    ultimately show ?thesis by blast
  qed
qed

lemma run_generate_only_counts:
  "count_list (snd (run_generate_only stages critique_fn route revise_fn final_fn s)) CritiquePaper \<le> 2
   \<and> count_list (snd (run_generate_only stages critique_fn route revise_fn final_fn s)) RevisePaper \<le> 1"
  by (simp add: run_generate_only_def Let_def)

lemma run_revise_only_counts:
  "count_list (snd (run_revise_only critique_fn revise_fn final_fn s)) CritiquePaper = 2
   \<and> count_list (snd (run_revise_only critique_fn revise_fn final_fn s)) RevisePaper = 1"
  by (simp add: run_revise_only_def)

text \<open>
  Claim C1. With a revision stage that increments \<open>revision_count\<close>, a critique stage
  that leaves it alone, and a count that starts at 0, the cycle of critique, controller
  and revision returns for every cap that is not negative, whatever the critique says:
  it evaluates the critique at most \<open>cap + 1\<close> times, enters \<open>revise_paper\<close> at most \<open>cap\<close>
  times, and ends in \<open>final_draft\<close>. Once \<open>revision_count\<close> has reached the cap, the
  controller goes to \<open>final_draft\<close> whatever the critique. The manual sequence of
  \<open>run_generate_only\<close>, whose cap is 2, stays within the same bounds.
\<close>

theorem revision_loop_terminates:
  assumes "\<forall>s. revision_count (revise_fn s) = revision_count s + 1"
      and "\<forall>s. revision_count (critique_fn s) = revision_count s"
      and "revision_count s0 = 0"
      and "0 \<le> cap"
  shows "(\<exists>s' visited.
            review_cycle critique_fn (revise_node cap) revise_fn final_fn [] s0 = Some (s', visited)
            \<and> count_list visited CritiquePaper \<le> nat cap + 1
            \<and> count_list visited RevisePaper \<le> nat cap
            \<and> last visited = FinalDraft)
       \<and> (\<forall>s. cap \<le> revision_count s \<longrightarrow> revise_node cap s = ToFinalDraft)
       \<and> count_list (snd (run_generate_only stages critique_fn (revise_node 2) revise_fn final_fn s0))
            CritiquePaper \<le> 2 + 1
       \<and> count_list (snd (run_generate_only stages critique_fn (revise_node 2) revise_fn final_fn s0))
            RevisePaper \<le> 2"
proof -
  from review_cycle_bound [OF assms(1,2), of cap final_fn "[]" s0] assms(3)
  have "\<exists>s' visited.
          review_cycle critique_fn (revise_node cap) revise_fn final_fn [] s0 = Some (s', visited)
          \<and> count_list visited CritiquePaper \<le> nat cap + 1
          \<and> count_list visited RevisePaper \<le> nat cap
          \<and> last visited = FinalDraft"
    by auto
  moreover have "\<forall>s. cap \<le> revision_count s \<longrightarrow> revise_node cap s = ToFinalDraft"
    by (simp add: revise_node_at_cap)
  moreover have
    "count_list (snd (run_generate_only stages critique_fn (revise_node 2) revise_fn final_fn s0))
       CritiquePaper \<le> 2 + 1"
    "count_list (snd (run_generate_only stages critique_fn (revise_node 2) revise_fn final_fn s0))
       RevisePaper \<le> 2"
    using run_generate_only_counts [of stages critique_fn "revise_node 2" revise_fn final_fn s0]
    by simp_all
  ultimately show ?thesis by blast
qed

lemma review_cycle_harsh:
  "review_cycle (critique_paper_node ex_harsh_judge) (revise_node 2) (revise_paper_node ex_rewrite)
     final_draft_node [] (initial_paper_state ''t'')
   = Some (final_draft_node (critique_paper_node ex_harsh_judge
             (revise_paper_node ex_rewrite (critique_paper_node ex_harsh_judge
               (revise_paper_node ex_rewrite (critique_paper_node ex_harsh_judge
                 (initial_paper_state ''t'')))))),
           [CritiquePaper, RevisePaper, CritiquePaper, RevisePaper, CritiquePaper, FinalDraft])"
  apply (subst review_cycle.simps)
  apply (simp add: Let_def revise_node_def critique_paper_node_def revise_paper_node_def
      initial_paper_state_def ex_harsh_judge_def)
  apply (subst review_cycle.simps)
  apply (simp add: Let_def revise_node_def critique_paper_node_def revise_paper_node_def
      initial_paper_state_def ex_harsh_judge_def)
  apply (subst review_cycle.simps)
  apply (simp add: Let_def revise_node_def critique_paper_node_def revise_paper_node_def
      initial_paper_state_def ex_harsh_judge_def)
  done

theorem revision_loop_terminates_witness:
  "(\<forall>s. revision_count (revise_paper_node ex_rewrite s) = revision_count s + 1)
   \<and> (\<forall>s. revision_count (critique_paper_node ex_harsh_judge s) = revision_count s)
   \<and> revision_count (initial_paper_state ''t'') = 0
   \<and> (0::int) \<le> 2
   \<and> (\<exists>s' visited.
         review_cycle (critique_paper_node ex_harsh_judge) (revise_node 2)
           (revise_paper_node ex_rewrite) final_draft_node [] (initial_paper_state ''t'')
           = Some (s', visited)
         \<and> count_list visited CritiquePaper \<le> 3
         \<and> count_list visited RevisePaper \<le> 2
         \<and> last visited = FinalDraft)"
proof -
  have a: "\<forall>s. revision_count (revise_paper_node ex_rewrite s) = revision_count s + 1"
    by (simp add: revise_paper_node_def)
  have b: "\<forall>s. revision_count (critique_paper_node ex_harsh_judge s) = revision_count s"
    by (simp add: critique_paper_node_def)
  have c: "revision_count (initial_paper_state ''t'') = 0"
    by (simp add: initial_paper_state_def)
  have d: "(0::int) \<le> 2" by simp
  from revision_loop_terminates [OF a b c d, of final_draft_node "[]"] a b c
  show ?thesis by simp
qed

end
